theory Spec2Isabelle
  imports Main "HOL-Library.Sublist"
begin

section \<open>Strings\<close>

text \<open>
  A JavaScript string is modelled as the list of its UTF-16 code units, each below 256:
  the strings over ISO-8859-1 (Latin-1), a character of type \<open>char\<close> being the code unit
  with that number. On these strings \<open>String.prototype.toLowerCase\<close> works character by
  character: the capitals \<open>A\<close>..\<open>Z\<close> (65..90), U+00C0..U+00D6 (192..214) and
  U+00D8..U+00DE (216..222) move up by 32 to their small letters, and every other
  character (the multiplication sign U+00D7 among them) stays as it is.
\<close>

definition capital :: "nat \<Rightarrow> bool" where
  "capital n = ((65 \<le> n \<and> n \<le> 90) \<or> (192 \<le> n \<and> n \<le> 214) \<or> (216 \<le> n \<and> n \<le> 222))"

definition lower_char :: "char \<Rightarrow> char" where
  "lower_char c = (if capital (of_char c) then char_of (of_char c + (32::nat)) else c)"

definition toLowerCase :: "string \<Rightarrow> string" where
  "toLowerCase s = map lower_char s"

text \<open>\<open>s.includes(k)\<close>: \<open>k\<close> occurs in \<open>s\<close> as a contiguous substring.\<close>

definition includes_str :: "string \<Rightarrow> string \<Rightarrow> bool" where
  "includes_str s k = sublist k s"

text \<open>\<open>s.indexOf(c)\<close> for a one-character needle: the first position, or -1.\<close>

fun indexOf :: "string \<Rightarrow> char \<Rightarrow> int" where
  "indexOf [] c = -1"
| "indexOf (x # xs) c =
     (if x = c then 0
      else (let i = indexOf xs c in if i = -1 then -1 else i + 1))"

text \<open>\<open>s.substring(i)\<close> for \<open>i \<ge> 0\<close> (a negative start counts as 0).\<close>

definition substring :: "string \<Rightarrow> int \<Rightarrow> string" where
  "substring s i = drop (nat i) s"

section \<open>Data model\<close>

record Email =
  email_id :: string
  email_from :: string
  email_to :: string
  email_subject :: string
  email_body :: string
  email_receivedAt :: nat
  email_isRead :: bool

record FilterDecision =
  approved :: bool
  reason :: string
  matchedKeywords :: "string list option"

record FilterConfig =
  cfg_keywordsEnabled :: bool
  cfg_keywords :: "string list"
  cfg_excludedDomains :: "string list"

section \<open>KeywordMatcher\<close>

record KeywordMatcher =
  km_keywords :: "string list"

definition new_KeywordMatcher :: "string list \<Rightarrow> KeywordMatcher" where
  "new_KeywordMatcher kws = \<lparr>km_keywords = map toLowerCase kws\<rparr>"

definition searchText :: "Email \<Rightarrow> string" where
  "searchText email = toLowerCase (email_subject email @ '' '' @ email_body email)"

definition findMatches :: "KeywordMatcher \<Rightarrow> Email \<Rightarrow> string list" where
  "findMatches km email =
     filter (\<lambda>keyword. includes_str (searchText email) keyword) (km_keywords km)"

definition hasMatch :: "KeywordMatcher \<Rightarrow> Email \<Rightarrow> bool" where
  "hasMatch km email = (length (findMatches km email) > 0)"

definition km_updateKeywords :: "KeywordMatcher \<Rightarrow> string list \<Rightarrow> KeywordMatcher" where
  "km_updateKeywords km kws = km\<lparr>km_keywords := map toLowerCase kws\<rparr>"

section \<open>DomainFilter\<close>

record DomainFilter =
  excludedDomains :: "string list"

definition new_DomainFilter :: "string list \<Rightarrow> DomainFilter" where
  "new_DomainFilter ds = \<lparr>excludedDomains = map toLowerCase ds\<rparr>"

definition extractDomain :: "string \<Rightarrow> string" where
  "extractDomain emailAddress =
     (let atIndex = indexOf emailAddress (CHR ''@'')
      in if atIndex = -1 then []
         else toLowerCase (substring emailAddress (atIndex + 1)))"

definition isExcluded :: "DomainFilter \<Rightarrow> string \<Rightarrow> bool" where
  "isExcluded df emailAddress =
     (let domain = extractDomain emailAddress
      in domain \<in> set (excludedDomains df))"

definition df_updateExcludedDomains :: "DomainFilter \<Rightarrow> string list \<Rightarrow> DomainFilter" where
  "df_updateExcludedDomains df ds = df\<lparr>excludedDomains := map toLowerCase ds\<rparr>"

section \<open>MessageFilter\<close>

record MessageFilter =
  keywordMatcher :: KeywordMatcher
  domainFilter :: DomainFilter
  keywordsEnabled :: bool

definition new_MessageFilter :: "FilterConfig \<Rightarrow> MessageFilter" where
  "new_MessageFilter config =
     \<lparr>keywordMatcher = new_KeywordMatcher (cfg_keywords config),
      domainFilter = new_DomainFilter (cfg_excludedDomains config),
      keywordsEnabled = cfg_keywordsEnabled config\<rparr>"

definition shouldAutoReply :: "MessageFilter \<Rightarrow> Email \<Rightarrow> FilterDecision" where
  "shouldAutoReply mf email =
     (if isExcluded (domainFilter mf) (email_from email) then
        \<lparr>approved = False,
         reason = ''Sender domain is excluded: '' @ extractDomain (email_from email),
         matchedKeywords = None\<rparr>
      else if keywordsEnabled mf then
        (let matched = findMatches (keywordMatcher mf) email
         in if length matched > 0 then
              \<lparr>approved = True,
               reason = ''Email contains required keywords'',
               matchedKeywords = Some matched\<rparr>
            else
              \<lparr>approved = False,
               reason = ''Email does not contain any required keywords'',
               matchedKeywords = None\<rparr>)
      else
        \<lparr>approved = True,
         reason = ''Keyword filtering disabled, all non-excluded emails approved'',
         matchedKeywords = None\<rparr>)"

definition updateKeywords :: "MessageFilter \<Rightarrow> string list \<Rightarrow> MessageFilter" where
  "updateKeywords mf kws = mf\<lparr>keywordMatcher := km_updateKeywords (keywordMatcher mf) kws\<rparr>"

definition updateExcludedDomains :: "MessageFilter \<Rightarrow> string list \<Rightarrow> MessageFilter" where
  "updateExcludedDomains mf ds =
     mf\<lparr>domainFilter := df_updateExcludedDomains (domainFilter mf) ds\<rparr>"

definition setKeywordsEnabled :: "MessageFilter \<Rightarrow> bool \<Rightarrow> MessageFilter" where
  "setKeywordsEnabled mf enabled = mf\<lparr>keywordsEnabled := enabled\<rparr>"

section \<open>Numbers and template substitution\<close>

text \<open>The decimal rendering of a number inside a template literal.\<close>

definition digit_char :: "nat \<Rightarrow> char" where
  "digit_char d = char_of (48 + d)"

fun show_nat :: "nat \<Rightarrow> string" where
  "show_nat n =
     (if n < 10 then [digit_char n] else show_nat (n div 10) @ [digit_char (n mod 10)])"

declare show_nat.simps [simp del]

text \<open>
  \<open>String.prototype.replace\<close> with a string as replacement expands the patterns
  \<open>$$\<close>, \<open>$&\<close>, \<open>$`\<close> and \<open>$'\<close> of the replacement (ECMAScript GetSubstitution).
  The three regular expressions of \<open>renderTemplate\<close> have no capture group, so
  \<open>$1\<close>..\<open>$99\<close> and \<open>$<\<close> stand for themselves. The arguments are the matched
  text, the part of the subject string in front of the match, the part behind it, and the
  replacement.
\<close>

fun getSubstitution :: "string \<Rightarrow> string \<Rightarrow> string \<Rightarrow> string \<Rightarrow> string" where
  "getSubstitution matched pre post [] = []"
| "getSubstitution matched pre post [c] = [c]"
| "getSubstitution matched pre post (c # d # rest) =
     (if c = CHR ''$'' \<and> d = CHR ''$'' then
        CHR ''$'' # getSubstitution matched pre post rest
      else if c = CHR ''$'' \<and> d = CHR ''&'' then
        matched @ getSubstitution matched pre post rest
      else if c = CHR ''$'' \<and> d = CHR 0x60 then
        pre @ getSubstitution matched pre post rest
      else if c = CHR ''$'' \<and> d = CHR 0x27 then
        post @ getSubstitution matched pre post rest
      else c # getSubstitution matched pre post (d # rest))"

text \<open>
  \<open>s.replace(/pat/g, repl)\<close> for a pattern that matches the literal text \<open>pat\<close>:
  the matches are found from left to right and do not overlap; \<open>pre\<close> is the part of
  the subject string already scanned.
\<close>

function replaceAll_from :: "string \<Rightarrow> string \<Rightarrow> string \<Rightarrow> string \<Rightarrow> string" where
  "replaceAll_from pat repl pre [] = []"
| "replaceAll_from pat repl pre (c # cs) =
     (if pat \<noteq> [] \<and> prefix pat (c # cs) then
        getSubstitution pat pre (drop (length pat) (c # cs)) repl
          @ replaceAll_from pat repl (pre @ pat) (drop (length pat) (c # cs))
      else c # replaceAll_from pat repl (pre @ [c]) cs)"
  by pat_completeness auto
termination
  by (relation "measure (\<lambda>(pat, repl, pre, s). length s)") auto

definition replaceAll :: "string \<Rightarrow> string \<Rightarrow> string \<Rightarrow> string" where
  "replaceAll pat repl s = replaceAll_from pat repl [] s"

section \<open>Replies, logs and failures\<close>

datatype ReplyStatus = Pending | Approved | Rejected | Sent | Failed

record Reply =
  reply_id :: string
  reply_originalEmailId :: string
  reply_to :: string
  reply_subject :: string
  reply_body :: string
  reply_generatedAt :: nat
  reply_status :: ReplyStatus
  reply_sentAt :: "nat option"
  reply_approvedBy :: "string option"

text \<open>The terminal states of the reply lifecycle.\<close>

definition terminal :: "ReplyStatus \<Rightarrow> bool" where
  "terminal st = (st = Sent \<or> st = Rejected \<or> st = Failed)"

datatype ActivityLogType = reply_sent | reply_failed | email_filtered | error

datatype MetaValue = MStr string | MNum nat

text \<open>
  An activity log entry. Its \<open>id\<close> (a random UUID) is left out; \<open>log_timestamp\<close> is the
  clock value of the operation that wrote the entry.
\<close>

record ActivityLog =
  log_timestamp :: nat
  log_type :: ActivityLogType
  log_emailId :: string
  log_replyId :: "string option"
  log_details :: string
  log_metadata :: "(string \<times> MetaValue) list"

text \<open>
  Every failure of the source is \<open>throw new Error(message)\<close> or a rejected promise of a
  collaborator. The constructors name the place that raised it:
  \<open>NotFound replyId\<close> is the error of \<open>processConfirmation\<close> for an id that is not
  pending, \<open>ReadTrackerError\<close> a rejection of \<open>ReadTracker.markAsRead\<close>,
  \<open>InboxError\<close> a rejection of \<open>checkInbox\<close>, \<open>ValidationError\<close> an error of
  \<open>validateConfig\<close>, and \<open>DbError\<close> a failure of the configuration database.
\<close>

datatype exn =
    NotFound string
  | ReadTrackerError string
  | InboxError string
  | ValidationError string
  | DbError string

fun message :: "exn \<Rightarrow> string" where
  "message (NotFound replyId) = ''Reply with id '' @ replyId @ '' not found in pending queue''"
| "message (ReadTrackerError m) = m"
| "message (InboxError m) = m"
| "message (ValidationError m) = m"
| "message (DbError m) = m"

record SendResult =
  success :: bool
  send_error :: "string option"
  sentAt :: "nat option"

record Mail =
  mail_from :: string
  mail_to :: string
  mail_subject :: string
  mail_text :: string

section \<open>AutoResponder\<close>

record AutoResponderConfig =
  smtp_user :: string
  replyTemplate :: string
  manualConfirmation :: bool

text \<open>
  What one operation reads from outside: the UUID that \<open>randomUUID\<close> returns for a new
  reply, the clock, whether \<open>transporter.sendMail\<close> resolves (\<open>None\<close>) or rejects with
  a message, and whether \<open>readTracker.markAsRead\<close> resolves or rejects.
\<close>

record Env =
  env_uuid :: string
  env_now :: nat
  env_send :: "string option"
  env_mark :: "string option"

text \<open>
  The calls that leave the pipeline, in the order they are made:
  \<open>transporter.sendMail\<close>, \<open>readTracker.markAsRead\<close>, \<open>logActivity\<close> (handed to
  \<open>onLog\<close>) and \<open>onReplySave\<close> (with the reply as it is at the call). The two
  optional callbacks \<open>onLog\<close> and \<open>onReplySave\<close> are taken to be configured and not
  to throw (a rejected \<open>onReplySave\<close> promise is caught by the source).
\<close>

datatype Event =
    SendMail Mail
  | MarkAsRead string
  | OnLog ActivityLog
  | OnReplySave Reply

text \<open>
  The state the responder and its collaborators share. Reply objects are mutable and
  passed by reference, so they live in a store \<open>objs\<close> addressed by references;
  \<open>pendingReplies\<close> maps a reply id to the reference of the queued object; \<open>trace\<close>
  records the calls made so far.
\<close>

record Sys =
  objs :: "nat \<Rightarrow> Reply"
  next_ref :: nat
  pendingReplies :: "string \<rightharpoonup> nat"
  trace :: "Event list"

definition emit :: "Event \<Rightarrow> Sys \<Rightarrow> Sys" where
  "emit ev s = s\<lparr>trace := trace s @ [ev]\<rparr>"

definition logActivity :: "ActivityLog \<Rightarrow> Sys \<Rightarrow> Sys" where
  "logActivity log s = emit (OnLog log) s"

definition onReplySave :: "nat \<Rightarrow> Sys \<Rightarrow> Sys" where
  "onReplySave r s = emit (OnReplySave (objs s r)) s"

text \<open>The mails sent, the read marks requested and the log entries written so far.\<close>

fun sent_of :: "Event \<Rightarrow> Mail list" where
  "sent_of (SendMail m) = [m]"
| "sent_of ev = []"

fun marked_of :: "Event \<Rightarrow> string list" where
  "marked_of (MarkAsRead emailId) = [emailId]"
| "marked_of ev = []"

fun logged_of :: "Event \<Rightarrow> ActivityLog list" where
  "logged_of (OnLog log) = [log]"
| "logged_of ev = []"

definition sendMail_calls :: "Sys \<Rightarrow> Mail list" where
  "sendMail_calls s = concat (map sent_of (trace s))"

definition markAsRead_calls :: "Sys \<Rightarrow> string list" where
  "markAsRead_calls s = concat (map marked_of (trace s))"

definition activity :: "Sys \<Rightarrow> ActivityLog list" where
  "activity s = concat (map logged_of (trace s))"

text \<open>The calls to the two collaborators that touch the mail system.\<close>

fun mail_call :: "Event \<Rightarrow> bool" where
  "mail_call (SendMail m) = True"
| "mail_call (MarkAsRead emailId) = True"
| "mail_call ev = False"

definition set_status :: "nat \<Rightarrow> ReplyStatus \<Rightarrow> Sys \<Rightarrow> Sys" where
  "set_status r st s = s\<lparr>objs := (objs s)(r := (objs s r)\<lparr>reply_status := st\<rparr>)\<rparr>"

definition renderTemplate :: "AutoResponderConfig \<Rightarrow> Email \<Rightarrow> string" where
  "renderTemplate cfg email =
     replaceAll ''{body}'' (email_body email)
       (replaceAll ''{subject}'' (email_subject email)
         (replaceAll ''{sender}'' (email_from email) (replyTemplate cfg)))"

text \<open>\<open>generateReply\<close> builds a new object; the result is its reference.\<close>

definition generateReply :: "AutoResponderConfig \<Rightarrow> Env \<Rightarrow> Email \<Rightarrow> Sys \<Rightarrow> nat \<times> Sys" where
  "generateReply cfg env email s =
     (let reply = \<lparr>reply_id = env_uuid env,
                   reply_originalEmailId = email_id email,
                   reply_to = email_from email,
                   reply_subject = ''Re: '' @ email_subject email,
                   reply_body = renderTemplate cfg email,
                   reply_generatedAt = env_now env,
                   reply_status = (if manualConfirmation cfg then Pending else Approved),
                   reply_sentAt = None,
                   reply_approvedBy = None\<rparr>;
          r = next_ref s;
          s1 = s\<lparr>objs := (objs s)(r := reply), next_ref := Suc r\<rparr>
      in (r, onReplySave r s1))"

definition sendReply :: "AutoResponderConfig \<Rightarrow> Env \<Rightarrow> nat \<Rightarrow> Sys \<Rightarrow> SendResult \<times> Sys" where
  "sendReply cfg env r s =
     (let reply = objs s r;
          s1 = emit (SendMail \<lparr>mail_from = smtp_user cfg, mail_to = reply_to reply,
                               mail_subject = reply_subject reply,
                               mail_text = reply_body reply\<rparr>) s
      in case env_send env of
           None \<Rightarrow>
             (let sentAt = env_now env;
                  s2 = s1\<lparr>objs := (objs s1)(r := reply\<lparr>reply_status := Sent,
                                                        reply_sentAt := Some sentAt\<rparr>)\<rparr>;
                  s3 = onReplySave r s2;
                  s4 = logActivity
                         \<lparr>log_timestamp = sentAt, log_type = reply_sent,
                          log_emailId = reply_originalEmailId reply,
                          log_replyId = Some (reply_id reply),
                          log_details = ''Reply sent to '' @ reply_to reply,
                          log_metadata = [(''recipient'', MStr (reply_to reply))]\<rparr> s3
              in (\<lparr>success = True, send_error = None, sentAt = Some sentAt\<rparr>, s4))
         | Some errorMessage \<Rightarrow>
             (let s2 = set_status r Failed s1;
                  s3 = onReplySave r s2;
                  s4 = logActivity
                         \<lparr>log_timestamp = env_now env, log_type = reply_failed,
                          log_emailId = reply_originalEmailId reply,
                          log_replyId = Some (reply_id reply),
                          log_details = ''Failed to send reply to '' @ reply_to reply
                                          @ '': '' @ errorMessage,
                          log_metadata = [(''recipient'', MStr (reply_to reply)),
                                          (''error'', MStr errorMessage)]\<rparr> s3
              in (\<lparr>success = False, send_error = Some errorMessage, sentAt = None\<rparr>, s4)))"

definition queueForConfirmation :: "nat \<Rightarrow> Sys \<Rightarrow> Sys" where
  "queueForConfirmation r s =
     (let s1 = set_status r Pending s
      in s1\<lparr>pendingReplies := (pendingReplies s1)(reply_id (objs s1 r) \<mapsto> r)\<rparr>)"

text \<open>The call of \<open>readTracker.markAsRead\<close>: recorded whether it resolves or rejects.\<close>

definition markAsRead :: "Env \<Rightarrow> string \<Rightarrow> Sys \<Rightarrow> (exn + unit) \<times> Sys" where
  "markAsRead env emailId s =
     (let s1 = emit (MarkAsRead emailId) s
      in case env_mark env of
           None \<Rightarrow> (Inr (), s1)
         | Some m \<Rightarrow> (Inl (ReadTrackerError m), s1))"

definition processConfirmation ::
  "AutoResponderConfig \<Rightarrow> Env \<Rightarrow> string \<Rightarrow> bool \<Rightarrow> Sys \<Rightarrow> (exn + unit) \<times> Sys" where
  "processConfirmation cfg env replyId approve s =
     (case pendingReplies s replyId of
        None \<Rightarrow> (Inl (NotFound replyId), s)
      | Some r \<Rightarrow>
          (let s1 = (if approve then snd (sendReply cfg env r (set_status r Approved s))
                     else set_status r Rejected s)
           in case markAsRead env (reply_originalEmailId (objs s1 r)) s1 of
                (Inl e, s2) \<Rightarrow> (Inl e, s2)
              | (Inr u, s2) \<Rightarrow>
                  (Inr (), s2\<lparr>pendingReplies := (pendingReplies s2)(replyId := None)\<rparr>)))"

text \<open>
  \<open>processConfirmation\<close> and \<open>sendReply\<close> are \<open>async\<close>: at an \<open>await\<close> a call is
  suspended and other calls may run. The three definitions that follow cut the approving
  call at the \<open>await\<close> of \<open>sendMail\<close>, so that two calls can be interleaved there; run
  one after the other they are \<open>processConfirmation\<close>.
\<close>

text \<open>
  The part of \<open>sendReply\<close> behind \<open>await this.transporter.sendMail(...)\<close>: it runs when
  the promise of \<open>sendMail\<close> has settled, and works on the reply object as it is then.
\<close>

definition sendReply_settled :: "Env \<Rightarrow> nat \<Rightarrow> Sys \<Rightarrow> SendResult \<times> Sys" where
  "sendReply_settled env r s =
     (let reply = objs s r
      in case env_send env of
           None \<Rightarrow>
             (let sentAt = env_now env;
                  s2 = s\<lparr>objs := (objs s)(r := reply\<lparr>reply_status := Sent,
                                                      reply_sentAt := Some sentAt\<rparr>)\<rparr>;
                  s3 = onReplySave r s2;
                  s4 = logActivity
                         \<lparr>log_timestamp = sentAt, log_type = reply_sent,
                          log_emailId = reply_originalEmailId reply,
                          log_replyId = Some (reply_id reply),
                          log_details = ''Reply sent to '' @ reply_to reply,
                          log_metadata = [(''recipient'', MStr (reply_to reply))]\<rparr> s3
              in (\<lparr>success = True, send_error = None, sentAt = Some sentAt\<rparr>, s4))
         | Some errorMessage \<Rightarrow>
             (let s2 = set_status r Failed s;
                  s3 = onReplySave r s2;
                  s4 = logActivity
                         \<lparr>log_timestamp = env_now env, log_type = reply_failed,
                          log_emailId = reply_originalEmailId reply,
                          log_replyId = Some (reply_id reply),
                          log_details = ''Failed to send reply to '' @ reply_to reply
                                          @ '': '' @ errorMessage,
                          log_metadata = [(''recipient'', MStr (reply_to reply)),
                                          (''error'', MStr errorMessage)]\<rparr> s3
              in (\<lparr>success = False, send_error = Some errorMessage, sentAt = None\<rparr>, s4)))"

text \<open>
  \<open>processConfirmation(replyId, true)\<close> up to its first suspension: the lookup in the
  pending set, the status change, and the call of \<open>sendMail\<close> that \<open>sendReply\<close> awaits.
  The result is the reference of the reply that the suspended call holds.
\<close>

definition approve_begin :: "AutoResponderConfig \<Rightarrow> string \<Rightarrow> Sys \<Rightarrow> (exn + nat) \<times> Sys" where
  "approve_begin cfg replyId s =
     (case pendingReplies s replyId of
        None \<Rightarrow> (Inl (NotFound replyId), s)
      | Some r \<Rightarrow>
          (let s1 = set_status r Approved s;
               reply = objs s1 r
           in (Inr r,
               emit (SendMail \<lparr>mail_from = smtp_user cfg, mail_to = reply_to reply,
                                mail_subject = reply_subject reply,
                                mail_text = reply_body reply\<rparr>) s1)))"

text \<open>
  The rest of that call, from the moment the promise of \<open>sendMail\<close> has settled: the end
  of \<open>sendReply\<close>, \<open>markAsRead\<close>, and the removal from the pending set.
\<close>

definition approve_resume :: "Env \<Rightarrow> string \<Rightarrow> nat \<Rightarrow> Sys \<Rightarrow> (exn + unit) \<times> Sys" where
  "approve_resume env replyId r s =
     (let s1 = snd (sendReply_settled env r s)
      in case markAsRead env (reply_originalEmailId (objs s1 r)) s1 of
           (Inl e, s2) \<Rightarrow> (Inl e, s2)
         | (Inr u, s2) \<Rightarrow>
             (Inr (), s2\<lparr>pendingReplies := (pendingReplies s2)(replyId := None)\<rparr>))"

section \<open>EmailMonitor\<close>

text \<open>
  What the IMAP library delivers for one fetched message: the \<open>attributes\<close> event (if it
  fires) with the numeric uid and, when present, the envelope; and the chunks of the body
  stream. A missing \<open>from\<close> or \<open>to\<close> list of the envelope is the empty list, a missing
  subject or date is \<open>None\<close>.
\<close>

record Address =
  mailbox :: string
  host :: string

record Envelope =
  envelope_from :: "Address list"
  envelope_to :: "Address list"
  envelope_subject :: "string option"
  envelope_date :: "nat option"

record Attrs =
  attrs_uid :: nat
  attrs_envelope :: "Envelope option"

record Message =
  msg_attributes :: "Attrs option"
  msg_chunks :: "string list"

text \<open>\<open>list?.[0] ? `${list[0].mailbox}@${list[0].host}` : ''\<close>\<close>

definition first_address :: "Address list \<Rightarrow> string" where
  "first_address as =
     (case as of [] \<Rightarrow> [] | a # _ \<Rightarrow> mailbox a @ ''@'' @ host a)"

text \<open>The handlers of one message; the result is what \<open>msg.once('end')\<close> pushes.\<close>

definition on_message :: "nat \<Rightarrow> Message \<Rightarrow> Email list" where
  "on_message now msg =
     (let (uid, sender, recipient, subject, receivedAt) =
            (case msg_attributes msg of
               None \<Rightarrow> ([], [], [], [], now)
             | Some attrs \<Rightarrow>
                 (case attrs_envelope attrs of
                    None \<Rightarrow> (show_nat (attrs_uid attrs), [], [], [], now)
                  | Some e \<Rightarrow>
                      (show_nat (attrs_uid attrs),
                       first_address (envelope_from e),
                       first_address (envelope_to e),
                       (case envelope_subject e of None \<Rightarrow> [] | Some t \<Rightarrow> t),
                       (case envelope_date e of None \<Rightarrow> now | Some d \<Rightarrow> d))));
          body = concat (msg_chunks msg)
      in if uid \<noteq> [] \<and> sender \<noteq> [] then
           [\<lparr>email_id = uid, email_from = sender, email_to = recipient,
             email_subject = subject, email_body = body,
             email_receivedAt = receivedAt, email_isRead = False\<rparr>]
         else [])"

text \<open>
  The course of one IMAP session, as the callbacks of \<open>checkInbox\<close> see it: the promise
  is rejected when \<open>connect\<close> throws, on an \<open>error\<close> event, and when \<open>openBox\<close>,
  \<open>search\<close> or the fetch fails; it resolves with no email when nothing is unseen, and
  otherwise with what the message handlers pushed. The body stream of a message is taken
  to have ended when the message ends.
\<close>

datatype ImapSession =
    ConnectThrows string
  | ConnectionError string
  | OpenBoxFails string
  | SearchFails string
  | NoUnseen
  | FetchFails "Message list" string
  | Fetched "Message list"

fun checkInbox :: "nat \<Rightarrow> ImapSession \<Rightarrow> exn + Email list" where
  "checkInbox now (ConnectThrows err) =
     Inl (InboxError (''Failed to connect to IMAP server: '' @ err))"
| "checkInbox now (ConnectionError m) = Inl (InboxError (''IMAP connection error: '' @ m))"
| "checkInbox now (OpenBoxFails m) = Inl (InboxError (''Failed to open inbox: '' @ m))"
| "checkInbox now (SearchFails m) =
     Inl (InboxError (''Failed to search for unread emails: '' @ m))"
| "checkInbox now NoUnseen = Inr []"
| "checkInbox now (FetchFails msgs m) = Inl (InboxError (''Failed to fetch emails: '' @ m))"
| "checkInbox now (Fetched msgs) = Inr (concat (map (on_message now) msgs))"

record Monitor =
  isRunning :: bool
  isProcessing :: bool
  shouldStop :: bool
  consecutiveFailures :: nat

definition MAX_CONSECUTIVE_FAILURES :: nat where
  "MAX_CONSECUTIVE_FAILURES = 5"

text \<open>The \<open>catch\<close> block of \<open>processEmail\<close>.\<close>

definition processEmail_catch :: "Env \<Rightarrow> Email \<Rightarrow> exn \<Rightarrow> Sys \<Rightarrow> Sys" where
  "processEmail_catch env email e s =
     (let errorMessage = message e
      in logActivity
           \<lparr>log_timestamp = env_now env, log_type = error,
            log_emailId = email_id email, log_replyId = None,
            log_details = ''Error processing email: '' @ errorMessage,
            log_metadata = [(''from'', MStr (email_from email)),
                            (''subject'', MStr (email_subject email)),
                            (''error'', MStr errorMessage)]\<rparr> s)"

definition processEmail ::
  "MessageFilter \<Rightarrow> AutoResponderConfig \<Rightarrow> Env \<Rightarrow> Email \<Rightarrow> Sys \<Rightarrow> Sys" where
  "processEmail mf cfg env email s =
     (let filterDecision = shouldAutoReply mf email
      in if \<not> approved filterDecision then
           (let s1 = logActivity
                       \<lparr>log_timestamp = env_now env, log_type = email_filtered,
                        log_emailId = email_id email, log_replyId = None,
                        log_details = ''Email filtered out: '' @ reason filterDecision,
                        log_metadata = [(''from'', MStr (email_from email)),
                                        (''subject'', MStr (email_subject email))]\<rparr> s
            in case markAsRead env (email_id email) s1 of
                 (Inl e, s2) \<Rightarrow> processEmail_catch env email e s2
               | (Inr u, s2) \<Rightarrow> s2)
         else
           (case generateReply cfg env email s of
              (r, s1) \<Rightarrow>
                if reply_status (objs s1 r) = Pending then
                  logActivity
                    \<lparr>log_timestamp = env_now env, log_type = email_filtered,
                     log_emailId = email_id email,
                     log_replyId = Some (reply_id (objs s1 r)),
                     log_details = ''Reply queued for manual confirmation'',
                     log_metadata = [(''from'', MStr (email_from email)),
                                     (''subject'', MStr (email_subject email))]\<rparr>
                    (queueForConfirmation r s1)
                else
                  (case sendReply cfg env r s1 of
                     (res, s2) \<Rightarrow>
                       (case markAsRead env (email_id email) s2 of
                          (Inl e, s3) \<Rightarrow> processEmail_catch env email e s3
                        | (Inr u, s3) \<Rightarrow> s3))))"

text \<open>
  The loop of \<open>pollInbox\<close> over the emails of one cycle; the \<open>i\<close>-th email is processed
  in the environment \<open>envs i\<close>. The timer and \<open>start\<close>/\<open>stop\<close> are not part of the
  model: the flags \<open>isRunning\<close> and \<open>shouldStop\<close> are read but keep their value during
  a cycle.
\<close>

fun processEmails ::
  "MessageFilter \<Rightarrow> AutoResponderConfig \<Rightarrow> (nat \<Rightarrow> Env) \<Rightarrow> nat \<Rightarrow> Email list
     \<Rightarrow> Monitor \<times> Sys \<Rightarrow> Monitor \<times> Sys" where
  "processEmails mf cfg envs i [] ms = ms"
| "processEmails mf cfg envs i (email # rest) (m, s) =
     (if shouldStop m then (m, s)
      else processEmails mf cfg envs (Suc i) rest (m, processEmail mf cfg (envs i) email s))"

record Cycle =
  cyc_session :: ImapSession
  cyc_now :: nat
  cyc_envs :: "nat \<Rightarrow> Env"

definition pollInbox ::
  "MessageFilter \<Rightarrow> AutoResponderConfig \<Rightarrow> Cycle \<Rightarrow> Monitor \<times> Sys \<Rightarrow> Monitor \<times> Sys" where
  "pollInbox mf cfg cyc ms =
     (case ms of (m, s) \<Rightarrow>
        if isProcessing m \<or> shouldStop m then (m, s)
        else
          (let m1 = m\<lparr>isProcessing := True\<rparr>
           in case checkInbox (cyc_now cyc) (cyc_session cyc) of
                Inr emails \<Rightarrow>
                  (case processEmails mf cfg (cyc_envs cyc) 0 emails
                          (m1\<lparr>consecutiveFailures := 0\<rparr>, s) of
                     (m3, s3) \<Rightarrow> (m3\<lparr>isProcessing := False\<rparr>, s3))
              | Inl e \<Rightarrow>
                  (let m2 = m1\<lparr>consecutiveFailures := consecutiveFailures m1 + 1\<rparr>;
                       errorMessage = message e;
                       s1 = logActivity
                              \<lparr>log_timestamp = cyc_now cyc, log_type = error,
                               log_emailId = ''system'', log_replyId = None,
                               log_details = ''Failed to check inbox (attempt ''
                                 @ show_nat (consecutiveFailures m2) @ ''/''
                                 @ show_nat MAX_CONSECUTIVE_FAILURES @ ''): '' @ errorMessage,
                               log_metadata =
                                 [(''error'', MStr errorMessage),
                                  (''consecutiveFailures'', MNum (consecutiveFailures m2))]\<rparr> s;
                       s2 = (if consecutiveFailures m2 \<ge> MAX_CONSECUTIVE_FAILURES then
                               logActivity
                                 \<lparr>log_timestamp = cyc_now cyc, log_type = error,
                                  log_emailId = ''system'', log_replyId = None,
                                  log_details = ''Maximum consecutive failures reached (''
                                    @ show_nat MAX_CONSECUTIVE_FAILURES
                                    @ ''). Connection issues detected.'',
                                  log_metadata =
                                    [(''consecutiveFailures'',
                                      MNum (consecutiveFailures m2))]\<rparr> s1
                             else s1)
                   in (m2\<lparr>isProcessing := False\<rparr>, s2))))"

text \<open>The timer fires once per cycle; the cycles run one after the other.\<close>

fun pollCycles ::
  "MessageFilter \<Rightarrow> AutoResponderConfig \<Rightarrow> Cycle list \<Rightarrow> Monitor \<times> Sys \<Rightarrow> Monitor \<times> Sys" where
  "pollCycles mf cfg [] ms = ms"
| "pollCycles mf cfg (cyc # rest) ms = pollCycles mf cfg rest (pollInbox mf cfg cyc ms)"

section \<open>ConfigurationManager\<close>

text \<open>
  \<open>validateConfig\<close> inspects values of any type, so the fields of a configuration are
  JavaScript values. Numbers are the integers and \<open>NaN\<close>; an object is a finite map from
  property names to values, and reading an absent property gives \<open>undefined\<close>.
\<close>

datatype jsval =
    JUndefined
  | JNull
  | JBool bool
  | JNum int
  | JNaN
  | JStr string
  | JArr "jsval list"
  | JObj

type_synonym jsobj = "string \<rightharpoonup> jsval"

definition get_prop :: "jsobj \<Rightarrow> string \<Rightarrow> jsval" where
  "get_prop obj k = (case obj k of None \<Rightarrow> JUndefined | Some v \<Rightarrow> v)"

fun truthy :: "jsval \<Rightarrow> bool" where
  "truthy JUndefined = False"
| "truthy JNull = False"
| "truthy (JBool b) = b"
| "truthy (JNum n) = (n \<noteq> 0)"
| "truthy JNaN = False"
| "truthy (JStr s) = (s \<noteq> [])"
| "truthy (JArr vs) = True"
| "truthy JObj = True"

fun typeof :: "jsval \<Rightarrow> string" where
  "typeof JUndefined = ''undefined''"
| "typeof JNull = ''object''"
| "typeof (JBool b) = ''boolean''"
| "typeof (JNum n) = ''number''"
| "typeof JNaN = ''number''"
| "typeof (JStr s) = ''string''"
| "typeof (JArr vs) = ''object''"
| "typeof JObj = ''object''"

fun isArray :: "jsval \<Rightarrow> bool" where
  "isArray (JArr vs) = True"
| "isArray v = False"

text \<open>\<open>v <= 0\<close> for a value whose type is \<open>number\<close>.\<close>

fun le_zero :: "jsval \<Rightarrow> bool" where
  "le_zero (JNum n) = (n \<le> 0)"
| "le_zero v = False"

record Config =
  conf_email :: jsobj
  conf_filters :: jsobj
  conf_autoReply :: jsobj

text \<open>\<open>Partial<Config>\<close>: each section may be missing.\<close>

record ConfigUpdates =
  upd_email :: "jsobj option"
  upd_filters :: "jsobj option"
  upd_autoReply :: "jsobj option"

text \<open>The three blocks of \<open>validateConfig\<close>; the result is the error thrown, if any.\<close>

definition validate_email :: "jsobj \<Rightarrow> exn option" where
  "validate_email e =
     (if truthy (get_prop e ''imapHost'') \<and> typeof (get_prop e ''imapHost'') \<noteq> ''string'' then
        Some (ValidationError ''Invalid imapHost: must be a string'')
      else if truthy (get_prop e ''imapPort'')
              \<and> (typeof (get_prop e ''imapPort'') \<noteq> ''number'' \<or> le_zero (get_prop e ''imapPort'')) then
        Some (ValidationError ''Invalid imapPort: must be a positive number'')
      else if truthy (get_prop e ''smtpHost'') \<and> typeof (get_prop e ''smtpHost'') \<noteq> ''string'' then
        Some (ValidationError ''Invalid smtpHost: must be a string'')
      else if truthy (get_prop e ''smtpPort'')
              \<and> (typeof (get_prop e ''smtpPort'') \<noteq> ''number'' \<or> le_zero (get_prop e ''smtpPort'')) then
        Some (ValidationError ''Invalid smtpPort: must be a positive number'')
      else if truthy (get_prop e ''username'') \<and> typeof (get_prop e ''username'') \<noteq> ''string'' then
        Some (ValidationError ''Invalid username: must be a string'')
      else if truthy (get_prop e ''password'') \<and> typeof (get_prop e ''password'') \<noteq> ''string'' then
        Some (ValidationError ''Invalid password: must be a string'')
      else None)"

definition validate_filters :: "jsobj \<Rightarrow> exn option" where
  "validate_filters f =
     (if get_prop f ''keywordsEnabled'' \<noteq> JUndefined
         \<and> typeof (get_prop f ''keywordsEnabled'') \<noteq> ''boolean'' then
        Some (ValidationError ''Invalid keywordsEnabled: must be a boolean'')
      else if truthy (get_prop f ''keywords'') \<and> \<not> isArray (get_prop f ''keywords'') then
        Some (ValidationError ''Invalid keywords: must be an array'')
      else if truthy (get_prop f ''excludedDomains'') \<and> \<not> isArray (get_prop f ''excludedDomains'') then
        Some (ValidationError ''Invalid excludedDomains: must be an array'')
      else None)"

definition validate_autoReply :: "jsobj \<Rightarrow> exn option" where
  "validate_autoReply a =
     (if get_prop a ''manualConfirmation'' \<noteq> JUndefined
         \<and> typeof (get_prop a ''manualConfirmation'') \<noteq> ''boolean'' then
        Some (ValidationError ''Invalid manualConfirmation: must be a boolean'')
      else if truthy (get_prop a ''replyTemplate'')
              \<and> typeof (get_prop a ''replyTemplate'') \<noteq> ''string'' then
        Some (ValidationError ''Invalid replyTemplate: must be a string'')
      else if truthy (get_prop a ''checkInterval'')
              \<and> (typeof (get_prop a ''checkInterval'') \<noteq> ''number''
                  \<or> le_zero (get_prop a ''checkInterval'')) then
        Some (ValidationError ''Invalid checkInterval: must be a positive number'')
      else None)"

definition section_error :: "(jsobj \<Rightarrow> exn option) \<Rightarrow> jsobj option \<Rightarrow> exn option" where
  "section_error check sec = (case sec of None \<Rightarrow> None | Some obj \<Rightarrow> check obj)"

definition validateConfig :: "ConfigUpdates \<Rightarrow> exn + unit" where
  "validateConfig config =
     (case section_error validate_email (upd_email config) of
        Some e \<Rightarrow> Inl e
      | None \<Rightarrow>
          (case section_error validate_filters (upd_filters config) of
             Some e \<Rightarrow> Inl e
           | None \<Rightarrow>
               (case section_error validate_autoReply (upd_autoReply config) of
                  Some e \<Rightarrow> Inl e
                | None \<Rightarrow> Inr ())))"

definition defaultConfig :: Config where
  "defaultConfig =
     \<lparr>conf_email = [''imapHost'' \<mapsto> JStr [], ''imapPort'' \<mapsto> JNum 993,
               ''smtpHost'' \<mapsto> JStr [], ''smtpPort'' \<mapsto> JNum 587,
               ''username'' \<mapsto> JStr [], ''password'' \<mapsto> JStr []],
      conf_filters = [''keywordsEnabled'' \<mapsto> JBool False, ''keywords'' \<mapsto> JArr [],
                 ''excludedDomains'' \<mapsto> JArr []],
      conf_autoReply = [''manualConfirmation'' \<mapsto> JBool True,
                   ''replyTemplate'' \<mapsto>
                     JStr ''Thank you for your email. I will respond shortly.'',
                   ''checkInterval'' \<mapsto> JNum 10]\<rparr>"

text \<open>\<open>{ ...current, ...updates }\<close>; spreading a missing section adds nothing.\<close>

definition spread :: "jsobj \<Rightarrow> jsobj option \<Rightarrow> jsobj" where
  "spread current updates =
     current ++ (case updates of None \<Rightarrow> Map.empty | Some obj \<Rightarrow> obj)"

definition mergeConfig :: "Config \<Rightarrow> ConfigUpdates \<Rightarrow> Config" where
  "mergeConfig currentConfig updates =
     \<lparr>conf_email = spread (conf_email currentConfig) (upd_email updates),
      conf_filters = spread (conf_filters currentConfig) (upd_filters updates),
      conf_autoReply = spread (conf_autoReply currentConfig) (upd_autoReply updates)\<rparr>"

text \<open>
  The manager. A listener is a callback that acts on the world outside the manager
  (\<open>outside\<close>) and may throw: its result is the message thrown, if any, and the new
  outside world. \<open>db_data\<close> is the configuration stored in the one row of the database
  (encryption and JSON encoding are taken to round-trip), \<open>console\<close> the lines written
  with \<open>console.error\<close>.
\<close>

record 'w ConfigurationManager =
  listeners :: "(Config \<Rightarrow> 'w \<Rightarrow> string option \<times> 'w) list"
  currentConfig :: "Config option"
  db_data :: "Config option"
  console :: "string list"
  outside :: 'w

text \<open>
  Whether the database read of \<open>getConfig\<close> (with decryption and parsing) and the write
  of \<open>updateConfig\<close> fail. The database is taken to be initialised (\<open>dbReady\<close>
  resolved).
\<close>

record DbEnv =
  db_get_error :: "string option"
  db_run_error :: "string option"

definition getConfig ::
  "DbEnv \<Rightarrow> 'w ConfigurationManager \<Rightarrow> (exn + Config) \<times> 'w ConfigurationManager" where
  "getConfig db st =
     (case currentConfig st of
        Some c \<Rightarrow> (Inr c, st)
      | None \<Rightarrow>
          (case db_get_error db of
             Some m \<Rightarrow> (Inl (DbError m), st)
           | None \<Rightarrow>
               (case db_data st of
                  None \<Rightarrow> (Inr defaultConfig, st\<lparr>currentConfig := Some defaultConfig\<rparr>)
                | Some c \<Rightarrow> (Inr c, st\<lparr>currentConfig := Some c\<rparr>))))"

definition subscribe ::
  "(Config \<Rightarrow> 'w \<Rightarrow> string option \<times> 'w) \<Rightarrow> 'w ConfigurationManager
     \<Rightarrow> 'w ConfigurationManager" where
  "subscribe listener st = st\<lparr>listeners := listeners st @ [listener]\<rparr>"

text \<open>The loop of \<open>notifyListeners\<close>, with its \<open>try\<close>/\<open>catch\<close> around each call.\<close>

fun notify_loop ::
  "Config \<Rightarrow> (Config \<Rightarrow> 'w \<Rightarrow> string option \<times> 'w) list \<Rightarrow> 'w ConfigurationManager
     \<Rightarrow> 'w ConfigurationManager" where
  "notify_loop config [] st = st"
| "notify_loop config (listener # rest) st =
     (case listener config (outside st) of
        (None, w) \<Rightarrow> notify_loop config rest (st\<lparr>outside := w\<rparr>)
      | (Some err, w) \<Rightarrow>
          notify_loop config rest
            (st\<lparr>outside := w,
                console := console st @ [''Error notifying config listener: '' @ err]\<rparr>))"

definition notifyListeners :: "Config \<Rightarrow> 'w ConfigurationManager \<Rightarrow> 'w ConfigurationManager" where
  "notifyListeners config st = notify_loop config (listeners st) st"

definition updateConfig ::
  "DbEnv \<Rightarrow> ConfigUpdates \<Rightarrow> 'w ConfigurationManager
     \<Rightarrow> (exn + unit) \<times> 'w ConfigurationManager" where
  "updateConfig db updates st =
     (case validateConfig updates of
        Inl e \<Rightarrow> (Inl e, st)
      | Inr u \<Rightarrow>
          (case getConfig db st of
             (Inl e, st1) \<Rightarrow> (Inl e, st1)
           | (Inr cur, st1) \<Rightarrow>
               (let newConfig = mergeConfig cur updates
                in case db_run_error db of
                     Some m \<Rightarrow> (Inl (DbError m), st1)
                   | None \<Rightarrow>
                       (Inr (),
                        notifyListeners newConfig
                          (st1\<lparr>db_data := Some newConfig,
                               currentConfig := Some newConfig\<rparr>)))))"

section \<open>Notions of the specification\<close>

text \<open>The keyword \<open>k\<close> occurs case-insensitively in the text \<open>t\<close>.\<close>

definition occurs_ci :: "string \<Rightarrow> string \<Rightarrow> bool" where
  "occurs_ci k t = sublist (toLowerCase k) (toLowerCase t)"

text \<open>A cycle fails when its \<open>checkInbox\<close> rejects; \<open>inbox_error\<close> is the message.\<close>

definition failing :: "Cycle \<Rightarrow> bool" where
  "failing cyc = isl (checkInbox (cyc_now cyc) (cyc_session cyc))"

definition inbox_error :: "Cycle \<Rightarrow> string" where
  "inbox_error cyc =
     (case checkInbox (cyc_now cyc) (cyc_session cyc) of
        Inl e \<Rightarrow> message e
      | Inr emails \<Rightarrow> [])"

text \<open>
  The log entries the specification asks for when a cycle fails as the \<open>k\<close>-th failure in
  a row: the \<open>error\<close> entry that names the attempt, and from the fifth failure on the
  entry that reports the maximum.
\<close>

definition attempt_entry :: "nat \<Rightarrow> Cycle \<Rightarrow> ActivityLog" where
  "attempt_entry k cyc =
     \<lparr>log_timestamp = cyc_now cyc, log_type = error, log_emailId = ''system'',
      log_replyId = None,
      log_details = ''Failed to check inbox (attempt '' @ show_nat k @ ''/5): ''
                      @ inbox_error cyc,
      log_metadata = [(''error'', MStr (inbox_error cyc)), (''consecutiveFailures'', MNum k)]\<rparr>"

definition max_failures_entry :: "nat \<Rightarrow> Cycle \<Rightarrow> ActivityLog" where
  "max_failures_entry k cyc =
     \<lparr>log_timestamp = cyc_now cyc, log_type = error, log_emailId = ''system'',
      log_replyId = None,
      log_details = ''Maximum consecutive failures reached (5). Connection issues detected.'',
      log_metadata = [(''consecutiveFailures'', MNum k)]\<rparr>"

definition failure_entries :: "nat \<Rightarrow> Cycle \<Rightarrow> ActivityLog list" where
  "failure_entries k cyc =
     attempt_entry k cyc # (if 5 \<le> k then [max_failures_entry k cyc] else [])"

text \<open>The entries of a run of failing cycles that starts with the counter at \<open>k\<close>.\<close>

fun expected_failure_log :: "nat \<Rightarrow> Cycle list \<Rightarrow> ActivityLog list" where
  "expected_failure_log k [] = []"
| "expected_failure_log k (cyc # rest) =
     failure_entries (Suc k) cyc @ expected_failure_log (Suc k) rest"

text \<open>
  The state in which \<open>processConfirmation\<close> calls \<open>markAsRead\<close> for the pending reply
  \<open>r\<close>: after the approve or the reject branch.
\<close>

definition confirmed :: "AutoResponderConfig \<Rightarrow> Env \<Rightarrow> nat \<Rightarrow> bool \<Rightarrow> Sys \<Rightarrow> Sys" where
  "confirmed cfg env r approve s =
     (if approve then snd (sendReply cfg env r (set_status r Approved s))
      else set_status r Rejected s)"

section \<open>Example inputs\<close>

subsection \<open>Filter\<close>

text \<open>The keyword is \<open>help me\<close>; the email has subject \<open>help\<close> and body \<open>me\<close>.\<close>

definition boundary_config :: FilterConfig where
  "boundary_config =
     \<lparr>cfg_keywordsEnabled = True, cfg_keywords = [''help me''], cfg_excludedDomains = []\<rparr>"

definition boundary_email :: Email where
  "boundary_email = \<lparr>email_id = ''1'', email_from = ''a@b.c'', email_to = ''me@b.c'',
                      email_subject = ''help'', email_body = ''me'', email_receivedAt = 0,
                      email_isRead = False\<rparr>"

definition w_config :: FilterConfig where
  "w_config = \<lparr>cfg_keywordsEnabled = True, cfg_keywords = [''Urgent'', ''invoice''],
                cfg_excludedDomains = [''SPAM.COM'']\<rparr>"

definition w_email :: Email where
  "w_email = \<lparr>email_id = ''7'', email_from = ''alice@example.org'', email_to = ''me@b.c'',
               email_subject = ''URGENT help'', email_body = ''please'', email_receivedAt = 0,
               email_isRead = False\<rparr>"

definition spam_email :: Email where
  "spam_email = \<lparr>email_id = ''8'', email_from = ''spam@Spam.com'', email_to = ''me@b.c'',
               email_subject = ''URGENT help'', email_body = ''click'', email_receivedAt = 0,
               email_isRead = False\<rparr>"

text \<open>An excluded domain and a sender domain that differ in the case of U+00DC/U+00FC.\<close>

definition umlaut_config :: FilterConfig where
  "umlaut_config =
     \<lparr>cfg_keywordsEnabled = False, cfg_keywords = [],
      cfg_excludedDomains = [''M'' @ [CHR 0xDC] @ ''NCHEN.de'']\<rparr>"

definition umlaut_email :: Email where
  "umlaut_email = w_email\<lparr>email_from := ''bob@m'' @ [CHR 0xFC] @ ''nchen.DE''\<rparr>"

text \<open>A filter that approves every email: no excluded domain, keyword filtering off.\<close>

definition open_filter :: MessageFilter where
  "open_filter = new_MessageFilter
     \<lparr>cfg_keywordsEnabled = False, cfg_keywords = [], cfg_excludedDomains = []\<rparr>"

subsection \<open>Responder\<close>

definition blank_reply :: Reply where
  "blank_reply = \<lparr>reply_id = [], reply_originalEmailId = [], reply_to = [], reply_subject = [],
                   reply_body = [], reply_generatedAt = 0, reply_status = Pending,
                   reply_sentAt = None, reply_approvedBy = None\<rparr>"

text \<open>The state at start: nothing pending, no call made.\<close>

definition sys0 :: Sys where
  "sys0 = \<lparr>objs = (\<lambda>r. blank_reply), next_ref = 0, pendingReplies = Map.empty, trace = []\<rparr>"

definition auto_config :: AutoResponderConfig where
  "auto_config = \<lparr>smtp_user = ''me@b.c'', replyTemplate = ''Thanks, {subject}'',
                   manualConfirmation = False\<rparr>"

definition manual_config :: AutoResponderConfig where
  "manual_config = auto_config\<lparr>manualConfirmation := True\<rparr>"

definition body_only_config :: AutoResponderConfig where
  "body_only_config = auto_config\<lparr>replyTemplate := ''{body}''\<rparr>"

text \<open>An environment in which the transport and the read tracker work, and one in which
  the transport fails.\<close>

definition env_ok :: Env where
  "env_ok = \<lparr>env_uuid = ''r1'', env_now = 100, env_send = None, env_mark = None\<rparr>"

definition env_fail :: Env where
  "env_fail = env_ok\<lparr>env_send := Some ''connection refused''\<rparr>"

definition e1_email :: Email where
  "e1_email = \<lparr>email_id = ''e1'', email_from = ''a@b.com'', email_to = ''me@b.c'',
                email_subject = ''Hi'', email_body = ''hello'', email_receivedAt = 0,
                email_isRead = False\<rparr>"

definition empty_body_email :: Email where
  "empty_body_email = e1_email\<lparr>email_body := []\<rparr>"

text \<open>The state after \<open>e1\<close> went through the pipeline in manual mode: its reply is queued.\<close>

definition queued_sys :: Sys where
  "queued_sys = processEmail open_filter manual_config env_ok e1_email sys0"

text \<open>The state after \<open>e1\<close> went through the pipeline in auto mode: its reply is sent.\<close>

definition sent_sys :: Sys where
  "sent_sys = processEmail open_filter auto_config env_ok e1_email sys0"

text \<open>Two replies are pending: \<open>r1\<close> of \<open>e1\<close> and \<open>r2\<close> of a second email.\<close>

definition e2_email :: Email where
  "e2_email = e1_email\<lparr>email_id := ''e2'', email_from := ''c@d.org'', email_subject := ''Hello''\<rparr>"

definition two_queued_sys :: Sys where
  "two_queued_sys =
     processEmail open_filter manual_config (env_ok\<lparr>env_uuid := ''r2''\<rparr>) e2_email queued_sys"

text \<open>An environment in which the transport works and the read tracker fails.\<close>

definition env_mark_fail :: Env where
  "env_mark_fail = env_ok\<lparr>env_mark := Some ''mailbox unreachable''\<rparr>"

text \<open>The mail that answers \<open>e1\<close>.\<close>

definition r1_mail :: Mail where
  "r1_mail = \<lparr>mail_from = ''me@b.c'', mail_to = ''a@b.com'', mail_subject = ''Re: Hi'',
              mail_text = ''Thanks, Hi''\<rparr>"

text \<open>
  Two approvals of the queued reply \<open>r1\<close> that overlap: call A runs up to its
  \<open>await\<close>, call B does the same while A is suspended, then A and B run to their end.
\<close>

definition race_A_suspended :: Sys where
  "race_A_suspended = snd (approve_begin manual_config ''r1'' queued_sys)"

definition race_B_suspended :: Sys where
  "race_B_suspended = snd (approve_begin manual_config ''r1'' race_A_suspended)"

definition race_A_done :: Sys where
  "race_A_done = snd (approve_resume env_ok ''r1'' 0 race_B_suspended)"

definition race_B_done :: Sys where
  "race_B_done = snd (approve_resume env_ok ''r1'' 0 race_A_done)"

text \<open>
  An approval of \<open>r1\<close> whose \<open>markAsRead\<close> fails after the mail went out, and the
  approval repeated after it.
\<close>

definition retry_first :: Sys where
  "retry_first = snd (processConfirmation manual_config env_mark_fail ''r1'' True queued_sys)"

definition retry_second :: Sys where
  "retry_second = snd (processConfirmation manual_config env_ok ''r1'' True retry_first)"

subsection \<open>Monitor\<close>

text \<open>A message with a sender and no recipient, the email made of it, and a message
  without envelope.\<close>

definition no_recipient_msg :: Message where
  "no_recipient_msg =
     \<lparr>msg_attributes = Some \<lparr>attrs_uid = 12, attrs_envelope = Some
        \<lparr>envelope_from = [\<lparr>mailbox = ''a'', host = ''b.com''\<rparr>], envelope_to = [],
         envelope_subject = Some ''Hi'', envelope_date = Some 3\<rparr>\<rparr>,
      msg_chunks = [''hel'', ''lo'']\<rparr>"

definition no_recipient_email :: Email where
  "no_recipient_email =
     \<lparr>email_id = ''12'', email_from = ''a@b.com'', email_to = [],
      email_subject = ''Hi'', email_body = ''hello'', email_receivedAt = 3,
      email_isRead = False\<rparr>"

definition no_sender_msg :: Message where
  "no_sender_msg =
     \<lparr>msg_attributes = Some \<lparr>attrs_uid = 13, attrs_envelope = None\<rparr>, msg_chunks = []\<rparr>"

definition mon0 :: Monitor where
  "mon0 = \<lparr>isRunning = True, isProcessing = False, shouldStop = False, consecutiveFailures = 0\<rparr>"

definition fail_cycle :: Cycle where
  "fail_cycle = \<lparr>cyc_session = ConnectionError ''timeout'', cyc_now = 50,
                  cyc_envs = (\<lambda>i. env_ok)\<rparr>"

definition ok_cycle :: Cycle where
  "ok_cycle = fail_cycle\<lparr>cyc_session := NoUnseen\<rparr>"

subsection \<open>Configuration manager\<close>

definition db_ok :: DbEnv where
  "db_ok = \<lparr>db_get_error = None, db_run_error = None\<rparr>"

text \<open>Two listeners that write their number to the outside world; the first one throws.\<close>

definition listener1 :: "Config \<Rightarrow> nat list \<Rightarrow> string option \<times> nat list" where
  "listener1 c w = (Some ''listener 1 failed'', w @ [1])"

definition listener2 :: "Config \<Rightarrow> nat list \<Rightarrow> string option \<times> nat list" where
  "listener2 c w = (None, w @ [2])"

text \<open>A manager that holds the default configuration, with the two listeners subscribed.\<close>

definition cm0 :: "nat list ConfigurationManager" where
  "cm0 = subscribe listener2 (subscribe listener1
           \<lparr>listeners = [], currentConfig = Some defaultConfig, db_data = Some defaultConfig,
            console = [], outside = []\<rparr>)"

text \<open>The updates \<open>{autoReply: {checkInterval: 0}}\<close> and
  \<open>{autoReply: {replyTemplate: "Thanks, {subject}"}}\<close>.\<close>

definition zero_interval_update :: ConfigUpdates where
  "zero_interval_update =
     \<lparr>upd_email = None, upd_filters = None,
      upd_autoReply = Some [''checkInterval'' \<mapsto> JNum 0]\<rparr>"

definition template_update :: ConfigUpdates where
  "template_update =
     \<lparr>upd_email = None, upd_filters = None,
      upd_autoReply = Some [''replyTemplate'' \<mapsto> JStr ''Thanks, {subject}'']\<rparr>"

section \<open>The filter\<close>

lemma capital_shifted:
  assumes "capital n"
  shows "(n + 32) mod 256 = n + 32" and "\<not> capital (n + 32)" and "97 \<le> n + 32"
  using assms by (auto simp: capital_def)

lemma of_char_lower_capital:
  "capital (of_char c) \<Longrightarrow> (of_char (lower_char c) :: nat) = of_char c + 32"
  by (simp add: lower_char_def capital_shifted(1))

lemma lower_char_idem: "lower_char (lower_char c) = lower_char c"
proof (cases "capital (of_char c)")
  case True
  then have "\<not> capital (of_char (lower_char c))"
    by (simp add: of_char_lower_capital capital_shifted(2))
  then show ?thesis by (simp add: lower_char_def)
next
  case False
  then show ?thesis by (simp add: lower_char_def)
qed

lemma toLowerCase_idem: "toLowerCase (toLowerCase s) = toLowerCase s"
  by (simp add: toLowerCase_def lower_char_idem)

lemma toLowerCase_append: "toLowerCase (a @ b) = toLowerCase a @ toLowerCase b"
  by (simp add: toLowerCase_def)

lemma lower_char_space: "lower_char c = CHR '' '' \<longleftrightarrow> c = CHR '' ''"
proof
  assume h: "lower_char c = CHR '' ''"
  show "c = CHR '' ''"
  proof (cases "capital (of_char c)")
    case True
    then have "(97::nat) \<le> of_char (lower_char c)"
      using capital_shifted(3)[of "of_char c"] by (simp add: of_char_lower_capital)
    with h show ?thesis by simp
  next
    case False
    with h show ?thesis by (simp add: lower_char_def)
  qed
next
  assume "c = CHR '' ''"
  then show "lower_char c = CHR '' ''" by (simp add: lower_char_def capital_def)
qed

lemma space_toLowerCase: "CHR '' '' \<in> set (toLowerCase k) \<longleftrightarrow> CHR '' '' \<in> set k"
  unfolding toLowerCase_def using lower_char_space by (metis image_iff set_map)

lemma prefix_no_sep: "c \<notin> set k \<Longrightarrow> prefix k (c # ys) \<Longrightarrow> k = []"
  by (cases k) auto

lemma sublist_sep:
  assumes "c \<notin> set k"
  shows "sublist k (xs @ c # ys) \<longleftrightarrow> sublist k xs \<or> sublist k ys"
proof
  assume "sublist k (xs @ c # ys)"
  then consider "sublist k xs" | "sublist k (c # ys)"
    | xs1 xs2 where "k = xs1 @ xs2" "suffix xs1 xs" "prefix xs2 (c # ys)"
    by (auto simp: sublist_append)
  then show "sublist k xs \<or> sublist k ys"
  proof cases
    case 1 then show ?thesis by simp
  next
    case 2
    then have "prefix k (c # ys) \<or> sublist k ys" by (simp add: sublist_Cons_right)
    with assms show ?thesis using prefix_no_sep by fastforce
  next
    case 3
    from assms 3(1) have "c \<notin> set xs2" by simp
    then have "xs2 = []" using 3(3) by (rule prefix_no_sep)
    with 3 show ?thesis by auto
  qed
next
  assume "sublist k xs \<or> sublist k ys"
  then show "sublist k (xs @ c # ys)"
    by (auto simp: sublist_append sublist_Cons_right)
qed

lemma indexOf_first: "c \<notin> set u \<Longrightarrow> indexOf (u @ c # d) c = int (length u)"
  by (induction u) (auto simp: Let_def)

lemma extractDomain_split:
  "CHR ''@'' \<notin> set u \<Longrightarrow> extractDomain (u @ CHR ''@'' # d) = toLowerCase d"
  by (simp add: extractDomain_def indexOf_first substring_def Let_def nat_add_distrib)

lemma findMatches_new:
  "findMatches (new_KeywordMatcher kws) e =
     filter (\<lambda>k. sublist k (toLowerCase (email_subject e @ '' '' @ email_body e)))
       (map toLowerCase kws)"
  by (simp add: findMatches_def new_KeywordMatcher_def includes_str_def searchText_def)

lemma findMatches_nonempty:
  "findMatches (new_KeywordMatcher kws) e \<noteq> [] \<longleftrightarrow>
     (\<exists>k \<in> set kws. occurs_ci k (email_subject e @ '' '' @ email_body e))"
  by (auto simp: findMatches_new filter_empty_conv occurs_ci_def)

lemma occurs_ci_sep:
  "CHR '' '' \<notin> set k \<Longrightarrow>
     occurs_ci k (a @ '' '' @ b) \<longleftrightarrow> occurs_ci k a \<or> occurs_ci k b"
proof -
  assume "CHR '' '' \<notin> set k"
  then have "CHR '' '' \<notin> set (toLowerCase k)" by (simp add: space_toLowerCase)
  from sublist_sep[OF this, of "toLowerCase a" "toLowerCase b"]
  show ?thesis
    by (simp add: occurs_ci_def toLowerCase_append)
      (simp add: toLowerCase_def lower_char_def capital_def)
qed

text \<open>
  Hot reload: a filter whose three settings have been replaced through its update
  methods is the filter built from the new settings, so what follows for
  \<open>new_MessageFilter\<close> holds after every reconfiguration.
\<close>

lemma filter_after_updates:
  "setKeywordsEnabled (updateExcludedDomains (updateKeywords mf kws) ds) enabled =
     new_MessageFilter
       \<lparr>cfg_keywordsEnabled = enabled, cfg_keywords = kws, cfg_excludedDomains = ds\<rparr>"
  by (simp add: setKeywordsEnabled_def updateExcludedDomains_def updateKeywords_def
      km_updateKeywords_def df_updateExcludedDomains_def new_MessageFilter_def
      new_KeywordMatcher_def new_DomainFilter_def)

text \<open>
  Claim C2, at the failing input. \<open>findMatches\<close> searches the one text
  \<open>subject + " " + body\<close>, so a keyword with a space in it is found where the subject
  ends with its first part and the body begins with its second. The keyword \<open>help me\<close>
  occurs neither in the subject \<open>help\<close> nor in the body \<open>me\<close>, and the email is
  approved, with \<open>help me\<close> reported as matched.
\<close>

theorem C2_keyword_matched_across_boundary:
  "\<not> isExcluded (domainFilter (new_MessageFilter boundary_config)) (email_from boundary_email)
   \<and> cfg_keywordsEnabled boundary_config
   \<and> cfg_keywords boundary_config = [''help me'']
   \<and> email_subject boundary_email = ''help''
   \<and> email_body boundary_email = ''me''
   \<and> \<not> occurs_ci ''help me'' (email_subject boundary_email)
   \<and> \<not> occurs_ci ''help me'' (email_body boundary_email)
   \<and> shouldAutoReply (new_MessageFilter boundary_config) boundary_email =
        \<lparr>approved = True, reason = ''Email contains required keywords'',
         matchedKeywords = Some [''help me'']\<rparr>"
  by code_simp

lemma matched_as_occurring:
  "findMatches (new_KeywordMatcher kws) e =
     map toLowerCase (filter (\<lambda>k. occurs_ci k (email_subject e @ '' '' @ email_body e)) kws)"
  by (simp add: findMatches_new filter_map o_def occurs_ci_def)

lemma shouldAutoReply_not_excluded:
  assumes "\<not> isExcluded (domainFilter (new_MessageFilter config)) (email_from e)"
  shows "shouldAutoReply (new_MessageFilter config) e =
     (if cfg_keywordsEnabled config then
        (if findMatches (new_KeywordMatcher (cfg_keywords config)) e \<noteq> [] then
           \<lparr>approved = True, reason = ''Email contains required keywords'',
            matchedKeywords = Some (findMatches (new_KeywordMatcher (cfg_keywords config)) e)\<rparr>
         else \<lparr>approved = False, reason = ''Email does not contain any required keywords'',
               matchedKeywords = None\<rparr>)
      else \<lparr>approved = True,
            reason = ''Keyword filtering disabled, all non-excluded emails approved'',
            matchedKeywords = None\<rparr>)"
  using assms by (simp add: shouldAutoReply_def new_MessageFilter_def Let_def)

text \<open>
  What \<open>shouldAutoReply\<close> does for an email whose sender domain is not excluded. With
  \<open>keywordsEnabled\<close> it approves iff some configured keyword occurs case-insensitively
  in the text \<open>subject + " " + body\<close>; \<open>matchedKeywords\<close> is then the non-empty list of
  these keywords, lower-cased, in configuration order; and when no configured keyword
  contains a space, approval is the same as some keyword occurring in the subject or in
  the body. Without \<open>keywordsEnabled\<close> the email is approved whatever its content.
\<close>

lemma shouldAutoReply_keyword_logic:
  assumes "\<not> isExcluded (domainFilter (new_MessageFilter config)) (email_from e)"
  shows "(cfg_keywordsEnabled config \<longrightarrow>
            (approved (shouldAutoReply (new_MessageFilter config) e) \<longleftrightarrow>
               (\<exists>k \<in> set (cfg_keywords config).
                  occurs_ci k (email_subject e @ '' '' @ email_body e)))
          \<and> (approved (shouldAutoReply (new_MessageFilter config) e) \<longrightarrow>
               matchedKeywords (shouldAutoReply (new_MessageFilter config) e) =
                 Some (map toLowerCase
                        (filter (\<lambda>k. occurs_ci k (email_subject e @ '' '' @ email_body e))
                           (cfg_keywords config)))
               \<and> filter (\<lambda>k. occurs_ci k (email_subject e @ '' '' @ email_body e))
                    (cfg_keywords config) \<noteq> [])
          \<and> ((\<forall>k \<in> set (cfg_keywords config). CHR '' '' \<notin> set k) \<longrightarrow>
               (approved (shouldAutoReply (new_MessageFilter config) e) \<longleftrightarrow>
                  (\<exists>k \<in> set (cfg_keywords config).
                     occurs_ci k (email_subject e) \<or> occurs_ci k (email_body e)))))
       \<and> (\<not> cfg_keywordsEnabled config \<longrightarrow>
            approved (shouldAutoReply (new_MessageFilter config) e))"
proof (cases "cfg_keywordsEnabled config")
  case False
  with assms show ?thesis by (simp add: shouldAutoReply_not_excluded)
next
  case True
  let ?t = "email_subject e @ '' '' @ email_body e"
  let ?d = "shouldAutoReply (new_MessageFilter config) e"
  have a: "approved ?d \<longleftrightarrow> (\<exists>k \<in> set (cfg_keywords config). occurs_ci k ?t)"
  proof -
    have "approved ?d \<longleftrightarrow> findMatches (new_KeywordMatcher (cfg_keywords config)) e \<noteq> []"
      using True assms by (simp add: shouldAutoReply_not_excluded)
    then show ?thesis by (simp only: findMatches_nonempty)
  qed
  have m: "approved ?d \<longrightarrow>
             matchedKeywords ?d =
               Some (map toLowerCase (filter (\<lambda>k. occurs_ci k ?t) (cfg_keywords config)))
             \<and> filter (\<lambda>k. occurs_ci k ?t) (cfg_keywords config) \<noteq> []"
    using True assms
    by (simp add: shouldAutoReply_not_excluded matched_as_occurring)
  have s: "(\<forall>k \<in> set (cfg_keywords config). CHR '' '' \<notin> set k) \<longrightarrow>
             (approved ?d \<longleftrightarrow>
                (\<exists>k \<in> set (cfg_keywords config).
                   occurs_ci k (email_subject e) \<or> occurs_ci k (email_body e)))"
    using a occurs_ci_sep by blast
  from True a m s show ?thesis by blast
qed

text \<open>
  An instance: the keyword \<open>Urgent\<close> against the subject \<open>URGENT help\<close>, and the same
  configuration with keyword filtering disabled.
\<close>

lemma shouldAutoReply_keyword_logic_example:
  "\<not> isExcluded (domainFilter (new_MessageFilter w_config)) (email_from w_email)
   \<and> cfg_keywordsEnabled w_config
   \<and> cfg_keywords w_config = [''Urgent'', ''invoice'']
   \<and> approved (shouldAutoReply (new_MessageFilter w_config) w_email)
   \<and> occurs_ci ''Urgent'' (email_subject w_email)
   \<and> matchedKeywords (shouldAutoReply (new_MessageFilter w_config) w_email) = Some [''urgent'']
   \<and> approved (shouldAutoReply (new_MessageFilter (w_config\<lparr>cfg_keywordsEnabled := False\<rparr>))
        (w_email\<lparr>email_subject := ''hello''\<rparr>))"
proof -
  have h: "\<not> isExcluded (domainFilter (new_MessageFilter w_config)) (email_from w_email)"
    by code_simp
  have en: "cfg_keywordsEnabled w_config" by (simp add: w_config_def)
  have ns: "\<forall>k \<in> set (cfg_keywords w_config). CHR '' '' \<notin> set k"
    by (simp add: w_config_def)
  have oc: "occurs_ci ''Urgent'' (email_subject w_email)" by code_simp
  have ap: "approved (shouldAutoReply (new_MessageFilter w_config) w_email)"
    using shouldAutoReply_keyword_logic[OF h] en ns oc by (auto simp: w_config_def)
  have fl: "map toLowerCase
              (filter (\<lambda>k. occurs_ci k (email_subject w_email @ '' '' @ email_body w_email))
                 (cfg_keywords w_config)) = [''urgent'']"
    by code_simp
  have mk: "matchedKeywords (shouldAutoReply (new_MessageFilter w_config) w_email)
              = Some [''urgent'']"
    using shouldAutoReply_keyword_logic[OF h] en ap fl by simp
  have h2: "\<not> isExcluded (domainFilter (new_MessageFilter (w_config\<lparr>cfg_keywordsEnabled := False\<rparr>)))
               (email_from (w_email\<lparr>email_subject := ''hello''\<rparr>))"
    by code_simp
  have dis: "approved (shouldAutoReply (new_MessageFilter (w_config\<lparr>cfg_keywordsEnabled := False\<rparr>))
        (w_email\<lparr>email_subject := ''hello''\<rparr>))"
    using shouldAutoReply_keyword_logic[OF h2] by simp
  have kw: "cfg_keywords w_config = [''Urgent'', ''invoice'']" by (simp add: w_config_def)
  from h en kw oc ap mk dis show ?thesis by blast
qed

text \<open>
  Claim C3. If \<open>from\<close> is \<open>u@d\<close> with no \<open>@\<close> in \<open>u\<close> (so \<open>d\<close> is the part
  after the first \<open>@\<close>) and \<open>d\<close> equals an entry of \<open>excludedDomains\<close> up to case (both
  have the same \<open>toLowerCase\<close>), then \<open>shouldAutoReply\<close> rejects, the reason names the
  case-folded domain, and no matched keyword is reported -- whatever \<open>keywordsEnabled\<close>,
  the keywords and the content are.
\<close>

theorem C3_domain_exclusion_precedence:
  assumes "email_from e = u @ CHR ''@'' # d" and "CHR ''@'' \<notin> set u"
    and "x \<in> set (cfg_excludedDomains config)" and "toLowerCase x = toLowerCase d"
  shows "shouldAutoReply (new_MessageFilter config) e =
           \<lparr>approved = False,
            reason = ''Sender domain is excluded: '' @ toLowerCase d,
            matchedKeywords = None\<rparr>"
proof -
  have dom: "extractDomain (email_from e) = toLowerCase d"
    using assms(1,2) by (simp add: extractDomain_split)
  have "toLowerCase d \<in> set (map toLowerCase (cfg_excludedDomains config))"
    using assms(3,4) by (metis imageI set_map)
  then have "isExcluded (domainFilter (new_MessageFilter config)) (email_from e)"
    by (simp add: isExcluded_def new_MessageFilter_def new_DomainFilter_def dom)
  then show ?thesis by (simp add: shouldAutoReply_def dom)
qed

text \<open>
  Claim C3, witness: scenario 1 of the specification (the keyword \<open>urgent\<close> matches the
  subject, and the email is rejected all the same), and a domain with a letter outside
  ASCII that differs from the excluded entry in case only.
\<close>

theorem C3_domain_exclusion_precedence_witness:
  "email_from spam_email = ''spam'' @ CHR ''@'' # ''Spam.com''
   \<and> CHR ''@'' \<notin> set ''spam''
   \<and> ''SPAM.COM'' \<in> set (cfg_excludedDomains w_config)
   \<and> toLowerCase ''SPAM.COM'' = toLowerCase ''Spam.com''
   \<and> cfg_keywordsEnabled w_config
   \<and> findMatches (keywordMatcher (new_MessageFilter w_config)) spam_email = [''urgent'']
   \<and> shouldAutoReply (new_MessageFilter w_config) spam_email =
        \<lparr>approved = False, reason = ''Sender domain is excluded: spam.com'',
         matchedKeywords = None\<rparr>
   \<and> email_from umlaut_email = ''bob'' @ CHR ''@'' # (''m'' @ [CHR 0xFC] @ ''nchen.DE'')
   \<and> cfg_excludedDomains umlaut_config = [''M'' @ [CHR 0xDC] @ ''NCHEN.de'']
   \<and> toLowerCase (''M'' @ [CHR 0xDC] @ ''NCHEN.de'') = toLowerCase (''m'' @ [CHR 0xFC] @ ''nchen.DE'')
   \<and> shouldAutoReply (new_MessageFilter umlaut_config) umlaut_email =
        \<lparr>approved = False,
         reason = ''Sender domain is excluded: m'' @ [CHR 0xFC] @ ''nchen.de'',
         matchedKeywords = None\<rparr>"
proof -
  have a: "email_from spam_email = ''spam'' @ CHR ''@'' # ''Spam.com''"
    by (simp add: spam_email_def)
  have b: "CHR ''@'' \<notin> set ''spam''" by simp
  have c: "''SPAM.COM'' \<in> set (cfg_excludedDomains w_config)" by (simp add: w_config_def)
  have d: "toLowerCase ''SPAM.COM'' = toLowerCase ''Spam.com''" by code_simp
  have l: "toLowerCase ''Spam.com'' = ''spam.com''" by code_simp
  have k: "cfg_keywordsEnabled w_config" by (simp add: w_config_def)
  have f: "findMatches (keywordMatcher (new_MessageFilter w_config)) spam_email = [''urgent'']"
    by code_simp
  have a2: "email_from umlaut_email = ''bob'' @ CHR ''@'' # (''m'' @ [CHR 0xFC] @ ''nchen.DE'')"
    by (simp add: umlaut_email_def)
  have b2: "CHR ''@'' \<notin> set ''bob''" by simp
  have e2: "cfg_excludedDomains umlaut_config = [''M'' @ [CHR 0xDC] @ ''NCHEN.de'']"
    by (simp add: umlaut_config_def)
  then have c2: "''M'' @ [CHR 0xDC] @ ''NCHEN.de'' \<in> set (cfg_excludedDomains umlaut_config)"
    by simp
  have d2: "toLowerCase (''M'' @ [CHR 0xDC] @ ''NCHEN.de'')
              = toLowerCase (''m'' @ [CHR 0xFC] @ ''nchen.DE'')"
    by code_simp
  have l2: "toLowerCase (''m'' @ [CHR 0xFC] @ ''nchen.DE'') = ''m'' @ [CHR 0xFC] @ ''nchen.de''"
    by code_simp
  from C3_domain_exclusion_precedence[OF a b c d] l
  have 1: "shouldAutoReply (new_MessageFilter w_config) spam_email =
        \<lparr>approved = False, reason = ''Sender domain is excluded: spam.com'',
         matchedKeywords = None\<rparr>"
    by simp
  from C3_domain_exclusion_precedence[OF a2 b2 c2 d2] l2
  have 2: "shouldAutoReply (new_MessageFilter umlaut_config) umlaut_email =
        \<lparr>approved = False,
         reason = ''Sender domain is excluded: m'' @ [CHR 0xFC] @ ''nchen.de'',
         matchedKeywords = None\<rparr>"
    by simp
  from a b c d k f 1 a2 e2 d2 2 show ?thesis by blast
qed

section \<open>The responder\<close>

lemma getSubstitution_plain:
  "CHR ''$'' \<notin> set repl \<Longrightarrow> getSubstitution m b a repl = repl"
  by (induction m b a repl rule: getSubstitution.induct) auto

lemma replaceAll_nonempty:
  assumes "s \<noteq> []" and "repl \<noteq> []" and "CHR ''$'' \<notin> set repl"
  shows "replaceAll pat repl s \<noteq> []"
proof (cases s)
  case Nil with assms show ?thesis by simp
next
  case (Cons c cs)
  with assms show ?thesis by (simp add: replaceAll_def getSubstitution_plain)
qed

lemma renderTemplate_nonempty:
  assumes "replyTemplate cfg \<noteq> []"
    and "email_from email \<noteq> []" and "CHR ''$'' \<notin> set (email_from email)"
    and "email_subject email \<noteq> []" and "CHR ''$'' \<notin> set (email_subject email)"
    and "email_body email \<noteq> []" and "CHR ''$'' \<notin> set (email_body email)"
  shows "renderTemplate cfg email \<noteq> []"
  unfolding renderTemplate_def using assms by (intro replaceAll_nonempty)

lemma generateReply_eq:
  "generateReply cfg env email s =
     (next_ref s,
      s\<lparr>objs := (objs s)(next_ref s :=
            \<lparr>reply_id = env_uuid env, reply_originalEmailId = email_id email,
             reply_to = email_from email, reply_subject = ''Re: '' @ email_subject email,
             reply_body = renderTemplate cfg email, reply_generatedAt = env_now env,
             reply_status = (if manualConfirmation cfg then Pending else Approved),
             reply_sentAt = None, reply_approvedBy = None\<rparr>),
         next_ref := Suc (next_ref s),
         trace := trace s @ [OnReplySave
            \<lparr>reply_id = env_uuid env, reply_originalEmailId = email_id email,
             reply_to = email_from email, reply_subject = ''Re: '' @ email_subject email,
             reply_body = renderTemplate cfg email, reply_generatedAt = env_now env,
             reply_status = (if manualConfirmation cfg then Pending else Approved),
             reply_sentAt = None, reply_approvedBy = None\<rparr>]\<rparr>)"
  by (simp add: generateReply_def onReplySave_def emit_def Let_def)

text \<open>
  Claim C5, amended. The reply that \<open>generateReply\<close> builds has the email's id as
  \<open>originalEmailId\<close>, the email's \<open>from\<close> as \<open>to\<close>, and \<open>"Re: "\<close> followed by
  the original subject as subject, which is therefore never empty. Its body is the
  rendered template. \<open>to\<close> is non-empty exactly when the email's \<open>from\<close> is; the body
  is non-empty when the template and the email's \<open>from\<close>, \<open>subject\<close> and \<open>body\<close> are
  non-empty and these three fields contain no \<open>$\<close>.
\<close>

theorem C5_generateReply:
  "case generateReply cfg env email s of
     (r, s') \<Rightarrow>
       reply_originalEmailId (objs s' r) = email_id email
       \<and> reply_to (objs s' r) = email_from email
       \<and> reply_subject (objs s' r) = ''Re: '' @ email_subject email
       \<and> reply_subject (objs s' r) \<noteq> []
       \<and> reply_body (objs s' r) = renderTemplate cfg email
       \<and> (reply_to (objs s' r) \<noteq> [] \<longleftrightarrow> email_from email \<noteq> [])
       \<and> (replyTemplate cfg \<noteq> []
            \<and> email_from email \<noteq> [] \<and> CHR ''$'' \<notin> set (email_from email)
            \<and> email_subject email \<noteq> [] \<and> CHR ''$'' \<notin> set (email_subject email)
            \<and> email_body email \<noteq> [] \<and> CHR ''$'' \<notin> set (email_body email)
            \<longrightarrow> reply_body (objs s' r) \<noteq> [])"
  by (simp add: generateReply_eq renderTemplate_nonempty)

text \<open>
  Claim C5 as stated fails: \<open>generateReply\<close> checks nothing. With the template
  \<open>{body}\<close> and an email whose body is the empty string (which the data model allows)
  the reply's body is empty.
\<close>

theorem C5_counterexample:
  "replyTemplate body_only_config = ''{body}''
   \<and> email_from empty_body_email = ''a@b.com''
   \<and> email_subject empty_body_email = ''Hi''
   \<and> email_body empty_body_email = []
   \<and> reply_body (objs (snd (generateReply body_only_config env_ok empty_body_email sys0))
                     (fst (generateReply body_only_config env_ok empty_body_email sys0))) = []"
  by code_simp

text \<open>
  Claim C5, witness: scenario 4 of the specification.
\<close>

theorem C5_generateReply_witness:
  "replyTemplate auto_config = ''Thanks, {subject}''
   \<and> email_from e1_email = ''a@b.com'' \<and> email_subject e1_email = ''Hi''
   \<and> email_body e1_email = ''hello''
   \<and> reply_originalEmailId (objs (snd (generateReply auto_config env_ok e1_email sys0)) 0) = ''e1''
   \<and> reply_to (objs (snd (generateReply auto_config env_ok e1_email sys0)) 0) = ''a@b.com''
   \<and> reply_subject (objs (snd (generateReply auto_config env_ok e1_email sys0)) 0) = ''Re: Hi''
   \<and> reply_body (objs (snd (generateReply auto_config env_ok e1_email sys0)) 0) = ''Thanks, Hi''
   \<and> reply_body (objs (snd (generateReply auto_config env_ok e1_email sys0)) 0) \<noteq> []"
proof -
  have g: "fst (generateReply auto_config env_ok e1_email sys0) = 0"
    by (simp add: generateReply_def Let_def sys0_def)
  have t: "replyTemplate auto_config = ''Thanks, {subject}''" by (simp add: auto_config_def)
  have f: "email_from e1_email = ''a@b.com''" "email_subject e1_email = ''Hi''"
    "email_body e1_email = ''hello''" "email_id e1_email = ''e1''"
    by (simp_all add: e1_email_def)
  have r: "renderTemplate auto_config e1_email = ''Thanks, Hi''" by code_simp
  from C5_generateReply[where cfg=auto_config and env=env_ok and email=e1_email and s=sys0] g t f r
  show ?thesis by (simp add: case_prod_beta)
qed

lemma sendReply_pending [simp]:
  "pendingReplies (snd (sendReply cfg env r s)) = pendingReplies s"
  by (simp add: sendReply_def set_status_def onReplySave_def logActivity_def emit_def Let_def
      split: option.splits)

lemma sendReply_objs_other:
  "r' \<noteq> r \<Longrightarrow> objs (snd (sendReply cfg env r s)) r' = objs s r'"
  by (simp add: sendReply_def set_status_def onReplySave_def logActivity_def emit_def Let_def
      split: option.splits)

lemma sendReply_status:
  "reply_status (objs (snd (sendReply cfg env r s)) r) =
     (if env_send env = None then Sent else Failed)"
  by (simp add: sendReply_def set_status_def onReplySave_def logActivity_def emit_def Let_def
      split: option.splits)

lemma sendReply_originalEmailId:
  "reply_originalEmailId (objs (snd (sendReply cfg env r s)) r) = reply_originalEmailId (objs s r)"
  by (simp add: sendReply_def set_status_def onReplySave_def logActivity_def emit_def Let_def
      split: option.splits)

lemma sendReply_mail_calls:
  "filter mail_call (trace (snd (sendReply cfg env r s))) =
     filter mail_call (trace s) @
       [SendMail \<lparr>mail_from = smtp_user cfg, mail_to = reply_to (objs s r),
                   mail_subject = reply_subject (objs s r),
                   mail_text = reply_body (objs s r)\<rparr>]"
  by (simp add: sendReply_def set_status_def onReplySave_def logActivity_def emit_def Let_def
      split: option.splits)

lemma sendReply_sendMail_calls:
  "length (sendMail_calls (snd (sendReply cfg env r s))) = Suc (length (sendMail_calls s))"
  by (simp add: sendReply_def set_status_def onReplySave_def logActivity_def emit_def Let_def
      sendMail_calls_def split: option.splits)

lemma set_status_simps [simp]:
  "pendingReplies (set_status r st s) = pendingReplies s"
  "trace (set_status r st s) = trace s"
  "next_ref (set_status r st s) = next_ref s"
  "objs (set_status r st s) = (objs s)(r := (objs s r)\<lparr>reply_status := st\<rparr>)"
  by (simp_all add: set_status_def)

lemma sendMail_calls_set_status:
  "sendMail_calls (set_status r st s) = sendMail_calls s"
  by (simp add: sendMail_calls_def)

lemma markAsRead_simps [simp]:
  "fst (markAsRead env emailId s) =
     (case env_mark env of None \<Rightarrow> Inr () | Some m \<Rightarrow> Inl (ReadTrackerError m))"
  "snd (markAsRead env emailId s) = emit (MarkAsRead emailId) s"
  by (simp_all add: markAsRead_def Let_def split: option.splits)

lemma emit_simps [simp]:
  "pendingReplies (emit ev s) = pendingReplies s"
  "trace (emit ev s) = trace s @ [ev]"
  "next_ref (emit ev s) = next_ref s"
  "objs (emit ev s) = objs s"
  by (simp_all add: emit_def)

lemma processConfirmation_absent:
  "pendingReplies s replyId = None \<Longrightarrow>
     processConfirmation cfg env replyId approve s = (Inl (NotFound replyId), s)"
  by (simp add: processConfirmation_def)

lemma processConfirmation_present:
  assumes "pendingReplies s replyId = Some r"
  shows "processConfirmation cfg env replyId approve s =
     (case env_mark env of
        None \<Rightarrow>
          (Inr (),
           (emit (MarkAsRead (reply_originalEmailId (objs (confirmed cfg env r approve s) r)))
              (confirmed cfg env r approve s))
             \<lparr>pendingReplies := (pendingReplies s)(replyId := None)\<rparr>)
      | Some m \<Rightarrow>
          (Inl (ReadTrackerError m),
           emit (MarkAsRead (reply_originalEmailId (objs (confirmed cfg env r approve s) r)))
             (confirmed cfg env r approve s)))"
  using assms
  by (simp add: processConfirmation_def confirmed_def markAsRead_def Let_def
      split: option.splits)

lemma confirmed_simps:
  "pendingReplies (confirmed cfg env r approve s) = pendingReplies s"
  "r' \<noteq> r \<Longrightarrow> objs (confirmed cfg env r approve s) r' = objs s r'"
  "reply_status (objs (confirmed cfg env r approve s) r) =
     (if approve then (if env_send env = None then Sent else Failed) else Rejected)"
  "reply_originalEmailId (objs (confirmed cfg env r approve s) r) =
     reply_originalEmailId (objs s r)"
  "filter mail_call (trace (confirmed cfg env r approve s)) =
     filter mail_call (trace s) @
       (if approve then
          [SendMail \<lparr>mail_from = smtp_user cfg, mail_to = reply_to (objs s r),
                      mail_subject = reply_subject (objs s r),
                      mail_text = reply_body (objs s r)\<rparr>]
        else [])"
  "length (sendMail_calls (confirmed cfg env r approve s)) \<le> Suc (length (sendMail_calls s))"
  by (simp_all add: confirmed_def sendReply_objs_other sendReply_status
      sendReply_originalEmailId sendReply_mail_calls sendReply_sendMail_calls
      sendMail_calls_set_status)

text \<open>
  Calls of \<open>processConfirmation\<close> that run one after the other. A call fails with
  \<open>NotFound\<close> when the id is not pending, and then returns the state as it was; when
  the id is pending it never fails with \<open>NotFound\<close>. After a call that returned normally
  the id is no longer pending, a second call on the same id (whatever its decision and
  environment) fails with \<open>NotFound\<close> and changes nothing, and the two calls together
  have called \<open>sendMail\<close> at most once.
\<close>

lemma processConfirmation_one_after_the_other:
  "(pendingReplies s replyId = None \<longrightarrow>
      processConfirmation cfg env replyId approve s = (Inl (NotFound replyId), s))
   \<and> (pendingReplies s replyId \<noteq> None \<longrightarrow>
        (\<forall>x. fst (processConfirmation cfg env replyId approve s) \<noteq> Inl (NotFound x)))
   \<and> (fst (processConfirmation cfg env replyId approve s) = Inr () \<longrightarrow>
        pendingReplies (snd (processConfirmation cfg env replyId approve s)) replyId = None
        \<and> processConfirmation cfg env' replyId approve'
              (snd (processConfirmation cfg env replyId approve s))
            = (Inl (NotFound replyId), snd (processConfirmation cfg env replyId approve s))
        \<and> length (sendMail_calls (snd (processConfirmation cfg env' replyId approve'
              (snd (processConfirmation cfg env replyId approve s)))))
            \<le> Suc (length (sendMail_calls s)))"
proof (cases "pendingReplies s replyId")
  case None
  then show ?thesis by (simp add: processConfirmation_absent)
next
  case (Some r)
  let ?s1 = "snd (processConfirmation cfg env replyId approve s)"
  have nf: "\<forall>x. fst (processConfirmation cfg env replyId approve s) \<noteq> Inl (NotFound x)"
    by (simp add: processConfirmation_present[OF Some] split: option.splits)
  have ok: "pendingReplies ?s1 replyId = None
            \<and> length (sendMail_calls ?s1) \<le> Suc (length (sendMail_calls s))"
    if "fst (processConfirmation cfg env replyId approve s) = Inr ()"
    using that confirmed_simps(6)[of cfg env r approve s]
    by (simp add: processConfirmation_present[OF Some] sendMail_calls_def
        split: option.splits)
  show ?thesis
  proof (intro conjI impI)
    assume "pendingReplies s replyId = None"
    with Some show "processConfirmation cfg env replyId approve s = (Inl (NotFound replyId), s)"
      by simp
  next
    assume "pendingReplies s replyId \<noteq> None"
    from nf show "\<forall>x. fst (processConfirmation cfg env replyId approve s) \<noteq> Inl (NotFound x)" .
  next
    assume a: "fst (processConfirmation cfg env replyId approve s) = Inr ()"
    from ok[OF a] show "pendingReplies ?s1 replyId = None" by simp
    from ok[OF a] show "processConfirmation cfg env' replyId approve' ?s1
            = (Inl (NotFound replyId), ?s1)"
      by (simp add: processConfirmation_absent)
    from ok[OF a] show "length (sendMail_calls (snd (processConfirmation cfg env' replyId approve' ?s1)))
            \<le> Suc (length (sendMail_calls s))"
      by (simp add: processConfirmation_absent)
  qed
qed

text \<open>
  An instance: the queued reply \<open>r1\<close> is approved twice, one call after the other; an id
  never queued is approved once.
\<close>

lemma processConfirmation_one_after_the_other_example:
  "pendingReplies queued_sys ''r1'' = Some 0
   \<and> pendingReplies queued_sys ''zz'' = None
   \<and> processConfirmation manual_config env_ok ''zz'' True queued_sys
        = (Inl (NotFound ''zz''), queued_sys)
   \<and> fst (processConfirmation manual_config env_ok ''r1'' True queued_sys) = Inr ()
   \<and> processConfirmation manual_config env_ok ''r1'' True
        (snd (processConfirmation manual_config env_ok ''r1'' True queued_sys))
       = (Inl (NotFound ''r1''),
          snd (processConfirmation manual_config env_ok ''r1'' True queued_sys))
   \<and> length (sendMail_calls (snd (processConfirmation manual_config env_ok ''r1'' True
        (snd (processConfirmation manual_config env_ok ''r1'' True queued_sys)))))
       \<le> Suc (length (sendMail_calls queued_sys))"
proof -
  have p: "pendingReplies queued_sys ''r1'' = Some 0" by code_simp
  have z: "pendingReplies queued_sys ''zz'' = None" by code_simp
  have f: "fst (processConfirmation manual_config env_ok ''r1'' True queued_sys) = Inr ()"
    by (simp add: processConfirmation_present[OF p] env_ok_def)
  from processConfirmation_one_after_the_other[of queued_sys "''zz''" manual_config env_ok True env_ok True] z
  have a: "processConfirmation manual_config env_ok ''zz'' True queued_sys
        = (Inl (NotFound ''zz''), queued_sys)"
    by blast
  from processConfirmation_one_after_the_other[of queued_sys "''r1''" manual_config env_ok True env_ok True] f
  have b: "processConfirmation manual_config env_ok ''r1'' True
        (snd (processConfirmation manual_config env_ok ''r1'' True queued_sys))
       = (Inl (NotFound ''r1''),
          snd (processConfirmation manual_config env_ok ''r1'' True queued_sys))
   \<and> length (sendMail_calls (snd (processConfirmation manual_config env_ok ''r1'' True
        (snd (processConfirmation manual_config env_ok ''r1'' True queued_sys)))))
       \<le> Suc (length (sendMail_calls queued_sys))"
    by blast
  from p z a f b show ?thesis by blast
qed

text \<open>
  The approving call, cut at the \<open>await\<close> of \<open>sendMail\<close>, is the call.
\<close>

lemma sendReply_in_two_steps:
  "sendReply cfg env r s =
     sendReply_settled env r
       (emit (SendMail \<lparr>mail_from = smtp_user cfg, mail_to = reply_to (objs s r),
                        mail_subject = reply_subject (objs s r),
                        mail_text = reply_body (objs s r)\<rparr>) s)"
  by (simp add: sendReply_def sendReply_settled_def Let_def emit_def set_status_def
      split: option.splits)

lemma approve_in_two_steps:
  "processConfirmation cfg env replyId True s =
     (case approve_begin cfg replyId s of
        (Inl e, s1) \<Rightarrow> (Inl e, s1)
      | (Inr r, s1) \<Rightarrow> approve_resume env replyId r s1)"
  by (simp add: processConfirmation_def approve_begin_def approve_resume_def
      sendReply_in_two_steps Let_def split: option.splits)

text \<open>
  Claim C4, at the failing inputs. The entry is removed from the pending set in the last
  statement of \<open>processConfirmation\<close>, behind the \<open>await\<close> of \<open>sendReply\<close> and of
  \<open>markAsRead\<close>. (1) Two approvals of \<open>r1\<close> overlap: while call A is suspended at
  \<open>sendMail\<close>, call B still finds \<open>r1\<close> pending and calls \<open>sendMail\<close> too; both calls
  return normally, none fails with \<open>NotFound\<close>, and the mail has gone out twice. (2) An
  approval of \<open>r1\<close> sends the mail and then fails because \<open>markAsRead\<close> fails: \<open>r1\<close>
  stays pending, and the approval repeated afterwards sends the mail a second time.
\<close>

theorem C4_reply_sent_twice:
  "pendingReplies queued_sys ''r1'' = Some 0
   \<and> sendMail_calls queued_sys = []
   \<and> fst (approve_begin manual_config ''r1'' queued_sys) = Inr 0
   \<and> fst (approve_begin manual_config ''r1'' race_A_suspended) = Inr 0
   \<and> fst (approve_resume env_ok ''r1'' 0 race_B_suspended) = Inr ()
   \<and> fst (approve_resume env_ok ''r1'' 0 race_A_done) = Inr ()
   \<and> sendMail_calls race_B_done = [r1_mail, r1_mail]
   \<and> fst (processConfirmation manual_config env_mark_fail ''r1'' True queued_sys)
        = Inl (ReadTrackerError ''mailbox unreachable'')
   \<and> sendMail_calls retry_first = [r1_mail]
   \<and> pendingReplies retry_first ''r1'' = Some 0
   \<and> fst (processConfirmation manual_config env_ok ''r1'' True retry_first) = Inr ()
   \<and> sendMail_calls retry_second = [r1_mail, r1_mail]"
  by code_simp

lemma processEmail_catch_simps [simp]:
  "pendingReplies (processEmail_catch env email e s) = pendingReplies s"
  "objs (processEmail_catch env email e s) = objs s"
  "filter mail_call (trace (processEmail_catch env email e s)) = filter mail_call (trace s)"
  by (simp_all add: processEmail_catch_def logActivity_def Let_def)

lemma processEmail_auto:
  assumes "approved (shouldAutoReply mf email)" and "\<not> manualConfirmation cfg"
  shows "processEmail mf cfg env email s =
     (let s2 = emit (MarkAsRead (email_id email))
                 (snd (sendReply cfg env (next_ref s) (snd (generateReply cfg env email s))))
      in case env_mark env of
           None \<Rightarrow> s2
         | Some m \<Rightarrow> processEmail_catch env email (ReadTrackerError m) s2)"
  using assms
  by (simp add: processEmail_def generateReply_eq markAsRead_def Let_def case_prod_beta
      split: option.splits)

text \<open>
  Claim C1. In auto mode, for an email the filter approves, \<open>processEmail\<close> leaves the
  reply \<open>sent\<close> or \<open>failed\<close>, and its calls to the mail collaborators are
  \<open>sendMail\<close> followed by \<open>markAsRead\<close> on the email's id, whether the send
  succeeded or not. For a pending id, \<open>processConfirmation\<close> leaves the reply \<open>sent\<close>,
  \<open>failed\<close> or \<open>rejected\<close>, and its calls are the \<open>sendMail\<close> (on approve only)
  followed by \<open>markAsRead\<close> on the reply's \<open>originalEmailId\<close> in both branches; the
  reply is removed from the pending set only once \<open>markAsRead\<close> has returned normally
  (if it fails, the error is passed on and the reply stays pending).
\<close>

theorem C1_mark_read_on_terminal:
  "(approved (shouldAutoReply mf email) \<and> \<not> manualConfirmation cfg \<longrightarrow>
      reply_originalEmailId (objs (processEmail mf cfg env email s) (next_ref s)) = email_id email
      \<and> reply_status (objs (processEmail mf cfg env email s) (next_ref s))
          = (if env_send env = None then Sent else Failed)
      \<and> filter mail_call (trace (processEmail mf cfg env email s))
          = filter mail_call (trace s) @
              [SendMail \<lparr>mail_from = smtp_user cfg, mail_to = email_from email,
                          mail_subject = ''Re: '' @ email_subject email,
                          mail_text = renderTemplate cfg email\<rparr>,
               MarkAsRead (email_id email)])
   \<and> (pendingReplies s replyId = Some r \<longrightarrow>
        reply_status (objs (snd (processConfirmation cfg env replyId approve s)) r)
          = (if approve then (if env_send env = None then Sent else Failed) else Rejected)
        \<and> filter mail_call (trace (snd (processConfirmation cfg env replyId approve s)))
            = filter mail_call (trace s) @
                (if approve then
                   [SendMail \<lparr>mail_from = smtp_user cfg, mail_to = reply_to (objs s r),
                               mail_subject = reply_subject (objs s r),
                               mail_text = reply_body (objs s r)\<rparr>]
                 else [])
                @ [MarkAsRead (reply_originalEmailId (objs s r))]
        \<and> (case env_mark env of
              None \<Rightarrow>
                fst (processConfirmation cfg env replyId approve s) = Inr ()
                \<and> pendingReplies (snd (processConfirmation cfg env replyId approve s))
                    = (pendingReplies s)(replyId := None)
            | Some m \<Rightarrow>
                fst (processConfirmation cfg env replyId approve s) = Inl (ReadTrackerError m)
                \<and> pendingReplies (snd (processConfirmation cfg env replyId approve s))
                    = pendingReplies s))"
proof (intro conjI impI)
  assume a: "approved (shouldAutoReply mf email) \<and> \<not> manualConfirmation cfg"
  let ?g = "snd (generateReply cfg env email s)"
  have g: "objs ?g (next_ref s) =
      \<lparr>reply_id = env_uuid env, reply_originalEmailId = email_id email,
       reply_to = email_from email, reply_subject = ''Re: '' @ email_subject email,
       reply_body = renderTemplate cfg email, reply_generatedAt = env_now env,
       reply_status = Approved, reply_sentAt = None, reply_approvedBy = None\<rparr>"
    "filter mail_call (trace ?g) = filter mail_call (trace s)"
    using a by (simp_all add: generateReply_eq)
  show "reply_originalEmailId (objs (processEmail mf cfg env email s) (next_ref s)) = email_id email"
    using a g by (simp add: processEmail_auto sendReply_originalEmailId Let_def split: option.splits)
  show "reply_status (objs (processEmail mf cfg env email s) (next_ref s))
          = (if env_send env = None then Sent else Failed)"
    using a by (simp add: processEmail_auto sendReply_status Let_def split: option.splits)
  show "filter mail_call (trace (processEmail mf cfg env email s))
          = filter mail_call (trace s) @
              [SendMail \<lparr>mail_from = smtp_user cfg, mail_to = email_from email,
                          mail_subject = ''Re: '' @ email_subject email,
                          mail_text = renderTemplate cfg email\<rparr>,
               MarkAsRead (email_id email)]"
    using a g by (simp add: processEmail_auto sendReply_mail_calls Let_def split: option.splits)
next
  assume p: "pendingReplies s replyId = Some r"
  show "reply_status (objs (snd (processConfirmation cfg env replyId approve s)) r)
          = (if approve then (if env_send env = None then Sent else Failed) else Rejected)"
    by (simp add: processConfirmation_present[OF p] confirmed_simps split: option.splits)
  show "filter mail_call (trace (snd (processConfirmation cfg env replyId approve s)))
            = filter mail_call (trace s) @
                (if approve then
                   [SendMail \<lparr>mail_from = smtp_user cfg, mail_to = reply_to (objs s r),
                               mail_subject = reply_subject (objs s r),
                               mail_text = reply_body (objs s r)\<rparr>]
                 else [])
                @ [MarkAsRead (reply_originalEmailId (objs s r))]"
    by (simp add: processConfirmation_present[OF p] confirmed_simps split: option.splits)
  show "case env_mark env of
              None \<Rightarrow>
                fst (processConfirmation cfg env replyId approve s) = Inr ()
                \<and> pendingReplies (snd (processConfirmation cfg env replyId approve s))
                    = (pendingReplies s)(replyId := None)
            | Some m \<Rightarrow>
                fst (processConfirmation cfg env replyId approve s) = Inl (ReadTrackerError m)
                \<and> pendingReplies (snd (processConfirmation cfg env replyId approve s))
                    = pendingReplies s"
    by (simp add: processConfirmation_present[OF p] confirmed_simps split: option.splits)
qed

text \<open>
  Claim C1, witness: \<open>e1\<close> in auto mode with a working and with a failing transport,
  and scenario 5 of the specification (manual mode, the queued reply is rejected: the
  email is marked read and no mail is sent).
\<close>

theorem C1_mark_read_on_terminal_witness:
  "approved (shouldAutoReply open_filter e1_email) \<and> \<not> manualConfirmation auto_config
   \<and> reply_status (objs (processEmail open_filter auto_config env_ok e1_email sys0) 0) = Sent
   \<and> reply_status (objs (processEmail open_filter auto_config env_fail e1_email sys0) 0) = Failed
   \<and> filter mail_call (trace (processEmail open_filter auto_config env_fail e1_email sys0))
        = [SendMail \<lparr>mail_from = ''me@b.c'', mail_to = ''a@b.com'',
                      mail_subject = ''Re: Hi'', mail_text = ''Thanks, Hi''\<rparr>,
           MarkAsRead ''e1'']
   \<and> pendingReplies queued_sys ''r1'' = Some 0
   \<and> filter mail_call (trace queued_sys) = []
   \<and> reply_status (objs (snd (processConfirmation manual_config env_ok ''r1'' False queued_sys)) 0)
        = Rejected
   \<and> filter mail_call (trace (snd (processConfirmation manual_config env_ok ''r1'' False queued_sys)))
        = [MarkAsRead ''e1'']"
proof -
  have a: "approved (shouldAutoReply open_filter e1_email)" by code_simp
  have m: "\<not> manualConfirmation auto_config" by (simp add: auto_config_def)
  have p: "pendingReplies queued_sys ''r1'' = Some 0" by code_simp
  have q: "filter mail_call (trace queued_sys) = []" by code_simp
  have o: "reply_originalEmailId (objs queued_sys 0) = ''e1''" by code_simp
  have r: "renderTemplate auto_config e1_email = ''Thanks, Hi''" by code_simp
  have c: "smtp_user auto_config = ''me@b.c''" "email_from e1_email = ''a@b.com''"
    "email_subject e1_email = ''Hi''" "email_id e1_email = ''e1''"
    "next_ref sys0 = 0" "trace sys0 = []" "env_send env_ok = None"
    "env_send env_fail = Some ''connection refused''"
    by (simp_all add: auto_config_def e1_email_def sys0_def env_ok_def env_fail_def)
  from C1_mark_read_on_terminal[where mf=open_filter and email=e1_email and cfg=auto_config
         and env=env_ok and s=sys0] a m c
  have 1: "reply_status (objs (processEmail open_filter auto_config env_ok e1_email sys0) 0) = Sent"
    by simp
  from C1_mark_read_on_terminal[where mf=open_filter and email=e1_email and cfg=auto_config
         and env=env_fail and s=sys0] a m c r
  have 2: "reply_status (objs (processEmail open_filter auto_config env_fail e1_email sys0) 0) = Failed
     \<and> filter mail_call (trace (processEmail open_filter auto_config env_fail e1_email sys0))
        = [SendMail \<lparr>mail_from = ''me@b.c'', mail_to = ''a@b.com'',
                      mail_subject = ''Re: Hi'', mail_text = ''Thanks, Hi''\<rparr>,
           MarkAsRead ''e1'']"
    by simp
  from C1_mark_read_on_terminal[where cfg=manual_config and env=env_ok and s=queued_sys
         and replyId="''r1''" and r=0 and approve=False] p q o
  have 3: "reply_status (objs (snd (processConfirmation manual_config env_ok ''r1'' False queued_sys)) 0)
        = Rejected
     \<and> filter mail_call (trace (snd (processConfirmation manual_config env_ok ''r1'' False queued_sys)))
        = [MarkAsRead ''e1'']"
    by simp
  from a m 1 2 p q 3 show ?thesis by blast
qed

text \<open>
  Claim C7 as stated fails: the responder never looks at the current status. The reply
  of \<open>sent_sys\<close> is \<open>sent\<close>; \<open>queueForConfirmation\<close> makes it \<open>pending\<close> again, and
  \<open>sendReply\<close> with a failing transport makes it \<open>failed\<close>.
\<close>

theorem C7_counterexample:
  "terminal (reply_status (objs sent_sys 0))
   \<and> reply_status (objs sent_sys 0) = Sent
   \<and> reply_status (objs (queueForConfirmation 0 sent_sys) 0) = Pending
   \<and> reply_status (objs (snd (sendReply auto_config env_fail 0 sent_sys)) 0) = Failed"
  by code_simp

lemma queueForConfirmation_status:
  "reply_status (objs (queueForConfirmation r s) r) = Pending"
  by (simp add: queueForConfirmation_def Let_def)

lemma processConfirmation_objs_other:
  assumes "r \<notin> ran (pendingReplies s)"
  shows "objs (snd (processConfirmation cfg env replyId approve s)) r = objs s r"
proof (cases "pendingReplies s replyId")
  case None
  then show ?thesis by (simp add: processConfirmation_absent)
next
  case (Some r')
  then have "r' \<in> ran (pendingReplies s)" by (rule ranI)
  with assms have "r \<noteq> r'" by auto
  then show ?thesis
    by (simp add: processConfirmation_present[OF Some] confirmed_simps split: option.splits)
qed

lemma queueForConfirmation_objs:
  "objs (queueForConfirmation r s) = (objs s)(r := (objs s r)\<lparr>reply_status := Pending\<rparr>)"
  by (simp add: queueForConfirmation_def Let_def)

lemma sendReply_objs:
  "objs (snd (sendReply cfg env r s)) =
     (objs s)(r := (objs s r)
        \<lparr>reply_status := (if env_send env = None then Sent else Failed),
         reply_sentAt := (if env_send env = None then Some (env_now env)
                          else reply_sentAt (objs s r))\<rparr>)"
  by (auto simp: sendReply_def set_status_def onReplySave_def logActivity_def emit_def Let_def
      split: option.splits)

lemma confirmed_objs:
  "objs (confirmed cfg env r approve s) =
     (objs s)(r := (objs s r)
        \<lparr>reply_status := (if approve then (if env_send env = None then Sent else Failed)
                           else Rejected),
         reply_sentAt := (if approve \<and> env_send env = None then Some (env_now env)
                          else reply_sentAt (objs s r))\<rparr>)"
  by (auto simp: confirmed_def sendReply_objs)

lemma processConfirmation_objs:
  assumes "pendingReplies s replyId = Some r"
  shows "objs (snd (processConfirmation cfg env replyId approve s)) =
     (objs s)(r := (objs s r)
        \<lparr>reply_status := (if approve then (if env_send env = None then Sent else Failed)
                           else Rejected),
         reply_sentAt := (if approve \<and> env_send env = None then Some (env_now env)
                          else reply_sentAt (objs s r))\<rparr>)"
  by (simp add: processConfirmation_present[OF assms] confirmed_objs split: option.splits)

text \<open>
  Claim C7, amended. No operation of the responder looks at the current status, and each
  changes one reply object only. \<open>queueForConfirmation\<close> sets the status of the reply it
  is given to \<open>pending\<close>, and \<open>sendReply\<close> sets it to \<open>sent\<close> (with \<open>sentAt\<close>) or
  \<open>failed\<close>, whatever it was before; every other reply object stays as it is.
  \<open>processConfirmation\<close> changes no reply object when the id is not pending; when it is,
  it changes the reply stored under that id, to \<open>sent\<close>, \<open>failed\<close> or \<open>rejected\<close>, and
  no other reply object -- in particular none that the pending set does not hold. Once it
  has returned normally for an id, the reply is terminal, the id is no longer pending, and
  a further \<open>processConfirmation\<close> on that id changes nothing.
\<close>

theorem C7_status_transitions:
  "objs (queueForConfirmation r s) = (objs s)(r := (objs s r)\<lparr>reply_status := Pending\<rparr>)
   \<and> objs (snd (sendReply cfg env r s)) =
       (objs s)(r := (objs s r)
          \<lparr>reply_status := (if env_send env = None then Sent else Failed),
           reply_sentAt := (if env_send env = None then Some (env_now env)
                            else reply_sentAt (objs s r))\<rparr>)
   \<and> (pendingReplies s replyId = None \<longrightarrow>
        objs (snd (processConfirmation cfg env replyId approve s)) = objs s)
   \<and> (pendingReplies s replyId = Some r \<longrightarrow>
        objs (snd (processConfirmation cfg env replyId approve s)) =
          (objs s)(r := (objs s r)
             \<lparr>reply_status := (if approve then (if env_send env = None then Sent else Failed)
                                else Rejected),
              reply_sentAt := (if approve \<and> env_send env = None then Some (env_now env)
                               else reply_sentAt (objs s r))\<rparr>))
   \<and> (r \<notin> ran (pendingReplies s) \<longrightarrow>
        objs (snd (processConfirmation cfg env replyId approve s)) r = objs s r)
   \<and> (pendingReplies s replyId = Some r
        \<and> fst (processConfirmation cfg env replyId approve s) = Inr () \<longrightarrow>
        terminal (reply_status (objs (snd (processConfirmation cfg env replyId approve s)) r))
        \<and> pendingReplies (snd (processConfirmation cfg env replyId approve s)) replyId = None
        \<and> snd (processConfirmation cfg env' replyId approve'
                 (snd (processConfirmation cfg env replyId approve s)))
            = snd (processConfirmation cfg env replyId approve s))"
proof (intro conjI impI)
  show "objs (queueForConfirmation r s) = (objs s)(r := (objs s r)\<lparr>reply_status := Pending\<rparr>)"
    by (rule queueForConfirmation_objs)
  show "objs (snd (sendReply cfg env r s)) =
       (objs s)(r := (objs s r)
          \<lparr>reply_status := (if env_send env = None then Sent else Failed),
           reply_sentAt := (if env_send env = None then Some (env_now env)
                            else reply_sentAt (objs s r))\<rparr>)"
    by (rule sendReply_objs)
next
  assume "pendingReplies s replyId = None"
  then show "objs (snd (processConfirmation cfg env replyId approve s)) = objs s"
    by (simp add: processConfirmation_absent)
next
  assume "pendingReplies s replyId = Some r"
  then show "objs (snd (processConfirmation cfg env replyId approve s)) =
          (objs s)(r := (objs s r)
             \<lparr>reply_status := (if approve then (if env_send env = None then Sent else Failed)
                                else Rejected),
              reply_sentAt := (if approve \<and> env_send env = None then Some (env_now env)
                               else reply_sentAt (objs s r))\<rparr>)"
    by (rule processConfirmation_objs)
next
  assume "r \<notin> ran (pendingReplies s)"
  then show "objs (snd (processConfirmation cfg env replyId approve s)) r = objs s r"
    by (rule processConfirmation_objs_other)
next
  assume a: "pendingReplies s replyId = Some r
        \<and> fst (processConfirmation cfg env replyId approve s) = Inr ()"
  then have p: "pendingReplies s replyId = Some r" by simp
  from a have m: "env_mark env = None"
    by (simp add: processConfirmation_present[OF p] split: option.splits)
  show "terminal (reply_status (objs (snd (processConfirmation cfg env replyId approve s)) r))"
    using m by (simp add: processConfirmation_present[OF p] confirmed_simps terminal_def)
  show n: "pendingReplies (snd (processConfirmation cfg env replyId approve s)) replyId = None"
    using m by (simp add: processConfirmation_present[OF p])
  show "snd (processConfirmation cfg env' replyId approve'
                 (snd (processConfirmation cfg env replyId approve s)))
            = snd (processConfirmation cfg env replyId approve s)"
    using n by (simp add: processConfirmation_absent)
qed

lemma sent_sys_pending: "pendingReplies sent_sys = Map.empty"
proof -
  have a: "approved (shouldAutoReply open_filter e1_email)" by code_simp
  have m: "\<not> manualConfirmation auto_config" by (simp add: auto_config_def)
  show ?thesis
    by (simp add: sent_sys_def processEmail_auto[OF a m] generateReply_eq env_ok_def sys0_def)
qed

text \<open>
  Claim C7, witness: the sent reply of \<open>sent_sys\<close> is not pending and a confirmation
  changes no reply; with \<open>r1\<close> and \<open>r2\<close> pending, \<open>r1\<close> is approved, which leaves
  \<open>r2\<close> pending and untouched, and is then rejected in vain.
\<close>

theorem C7_status_transitions_witness:
  "0 \<notin> ran (pendingReplies sent_sys)
   \<and> terminal (reply_status (objs sent_sys 0))
   \<and> objs (snd (processConfirmation auto_config env_ok ''r1'' False sent_sys)) 0 = objs sent_sys 0
   \<and> pendingReplies sent_sys ''r1'' = None
   \<and> objs (snd (processConfirmation auto_config env_ok ''r1'' False sent_sys)) = objs sent_sys
   \<and> pendingReplies two_queued_sys ''r1'' = Some 0
   \<and> pendingReplies two_queued_sys ''r2'' = Some 1
   \<and> fst (processConfirmation manual_config env_ok ''r1'' True two_queued_sys) = Inr ()
   \<and> reply_status (objs (snd (processConfirmation manual_config env_ok ''r1'' True
        two_queued_sys)) 0) = Sent
   \<and> objs (snd (processConfirmation manual_config env_ok ''r1'' True two_queued_sys)) 1
       = objs two_queued_sys 1
   \<and> reply_status (objs two_queued_sys 1) = Pending
   \<and> terminal (reply_status
        (objs (snd (processConfirmation manual_config env_ok ''r1'' True two_queued_sys)) 0))
   \<and> snd (processConfirmation manual_config env_fail ''r1'' False
            (snd (processConfirmation manual_config env_ok ''r1'' True two_queued_sys)))
       = snd (processConfirmation manual_config env_ok ''r1'' True two_queued_sys)"
proof -
  have n: "0 \<notin> ran (pendingReplies sent_sys)" by (simp add: sent_sys_pending)
  have t: "terminal (reply_status (objs sent_sys 0))" by code_simp
  have a: "pendingReplies sent_sys ''r1'' = None" by (simp add: sent_sys_pending)
  have p: "pendingReplies two_queued_sys ''r1'' = Some 0" by code_simp
  have q: "pendingReplies two_queued_sys ''r2'' = Some 1" by code_simp
  have u: "reply_status (objs two_queued_sys 1) = Pending" by code_simp
  have f: "fst (processConfirmation manual_config env_ok ''r1'' True two_queued_sys) = Inr ()"
    by (simp add: processConfirmation_present[OF p] env_ok_def)
  have e: "env_send env_ok = None" by (simp add: env_ok_def)
  from C7_status_transitions[where r=0 and s=sent_sys and cfg=auto_config and env=env_ok
         and replyId="''r1''" and approve=False] n a
  have 1: "objs (snd (processConfirmation auto_config env_ok ''r1'' False sent_sys)) 0
             = objs sent_sys 0
     \<and> objs (snd (processConfirmation auto_config env_ok ''r1'' False sent_sys)) = objs sent_sys"
    by blast
  from C7_status_transitions[where r=0 and s=two_queued_sys and cfg=manual_config
         and env=env_ok and replyId="''r1''" and approve=True and env'=env_fail
         and approve'=False] p f
  have 2: "objs (snd (processConfirmation manual_config env_ok ''r1'' True two_queued_sys)) =
          (objs two_queued_sys)(0 := (objs two_queued_sys 0)
             \<lparr>reply_status := (if True then (if env_send env_ok = None then Sent else Failed)
                                else Rejected),
              reply_sentAt := (if True \<and> env_send env_ok = None then Some (env_now env_ok)
                               else reply_sentAt (objs two_queued_sys 0))\<rparr>)
     \<and> terminal (reply_status
        (objs (snd (processConfirmation manual_config env_ok ''r1'' True two_queued_sys)) 0))
     \<and> snd (processConfirmation manual_config env_fail ''r1'' False
            (snd (processConfirmation manual_config env_ok ''r1'' True two_queued_sys)))
       = snd (processConfirmation manual_config env_ok ''r1'' True two_queued_sys)"
    by blast
  from 2 e have 3: "reply_status (objs (snd (processConfirmation manual_config env_ok ''r1'' True
        two_queued_sys)) 0) = Sent
     \<and> objs (snd (processConfirmation manual_config env_ok ''r1'' True two_queued_sys)) 1
       = objs two_queued_sys 1"
    by simp
  from n t 1 a p q f 2 3 u show ?thesis by blast
qed

section \<open>The monitor\<close>

text \<open>
  Claim C6, at the failing input. The handler of a fetched message keeps it when \<open>uid\<close>
  and \<open>from\<close> are non-empty and does not look at \<open>to\<close>. A message without envelope
  is dropped, but a message whose envelope names a sender and no recipient is returned,
  with the empty string as \<open>to\<close>.
\<close>

theorem C6_email_without_recipient_returned:
  "checkInbox 7 (Fetched [no_sender_msg, no_recipient_msg]) = Inr [no_recipient_email]
   \<and> email_id no_recipient_email = ''12''
   \<and> email_from no_recipient_email = ''a@b.com''
   \<and> email_to no_recipient_email = []"
  by code_simp

lemma show_nat_nonempty: "show_nat n \<noteq> []"
  by (subst show_nat.simps) simp

lemma first_address_at: "first_address as = [] \<or> CHR ''@'' \<in> set (first_address as)"
  by (cases as) (simp_all add: first_address_def)

lemma on_message_props:
  assumes "e \<in> set (on_message now msg)"
  shows "email_id e \<noteq> [] \<and> email_from e \<noteq> [] \<and> CHR ''@'' \<in> set (email_from e)
         \<and> (email_to e = [] \<or> CHR ''@'' \<in> set (email_to e)) \<and> \<not> email_isRead e"
proof (cases "msg_attributes msg")
  case None
  with assms show ?thesis by (simp add: on_message_def)
next
  case (Some attrs)
  show ?thesis
  proof (cases "attrs_envelope attrs")
    case None
    with Some assms show ?thesis by (simp add: on_message_def)
  next
    case (Some ev)
    from first_address_at[of "envelope_from ev"] first_address_at[of "envelope_to ev"]
      assms \<open>msg_attributes msg = Some attrs\<close> Some
    show ?thesis
      by (auto simp: on_message_def show_nat_nonempty split: if_splits)
  qed
qed

text \<open>
  What \<open>checkInbox\<close> does guarantee for every email it returns: a non-empty \<open>id\<close>, a
  non-empty \<open>from\<close> of the form \<open>mailbox@host\<close>, a \<open>to\<close> that is of that form or empty,
  and \<open>isRead = false\<close>.
\<close>

lemma checkInbox_keeps_id_and_from:
  assumes "checkInbox now session = Inr emails" and "e \<in> set emails"
  shows "email_id e \<noteq> [] \<and> email_from e \<noteq> [] \<and> CHR ''@'' \<in> set (email_from e)
         \<and> (email_to e = [] \<or> CHR ''@'' \<in> set (email_to e)) \<and> \<not> email_isRead e"
proof (cases session)
  case (Fetched msgs)
  with assms obtain msg where "msg \<in> set msgs" and "e \<in> set (on_message now msg)"
    by auto
  then show ?thesis by (simp add: on_message_props)
qed (use assms in auto)

lemma show_nat_5: "show_nat 5 = ''5''"
  by code_simp

lemma processEmails_monitor:
  "fst (processEmails mf cfg envs i emails (m, s)) = m"
  by (induction emails arbitrary: i s) simp_all

lemma pollInbox_failure:
  assumes "failing cyc" and "\<not> isProcessing m" and "\<not> shouldStop m"
  shows "isRunning (fst (pollInbox mf cfg cyc (m, s))) = isRunning m"
    and "\<not> isProcessing (fst (pollInbox mf cfg cyc (m, s)))"
    and "\<not> shouldStop (fst (pollInbox mf cfg cyc (m, s)))"
    and "consecutiveFailures (fst (pollInbox mf cfg cyc (m, s))) = Suc (consecutiveFailures m)"
    and "activity (snd (pollInbox mf cfg cyc (m, s)))
           = activity s @ failure_entries (Suc (consecutiveFailures m)) cyc"
proof -
  from assms(1) obtain e where e: "checkInbox (cyc_now cyc) (cyc_session cyc) = Inl e"
    by (auto simp: failing_def isl_def)
  then have ie: "inbox_error cyc = message e" by (simp add: inbox_error_def)
  show "isRunning (fst (pollInbox mf cfg cyc (m, s))) = isRunning m"
    "\<not> isProcessing (fst (pollInbox mf cfg cyc (m, s)))"
    "\<not> shouldStop (fst (pollInbox mf cfg cyc (m, s)))"
    "consecutiveFailures (fst (pollInbox mf cfg cyc (m, s))) = Suc (consecutiveFailures m)"
    using assms(2,3) e by (simp_all add: pollInbox_def Let_def)
  show "activity (snd (pollInbox mf cfg cyc (m, s)))
           = activity s @ failure_entries (Suc (consecutiveFailures m)) cyc"
    using assms(2,3) e ie
    by (simp add: pollInbox_def Let_def activity_def logActivity_def emit_def
        failure_entries_def attempt_entry_def max_failures_entry_def show_nat_5
        MAX_CONSECUTIVE_FAILURES_def)
qed

lemma pollInbox_success:
  assumes "\<not> failing cyc" and "\<not> isProcessing m" and "\<not> shouldStop m"
  shows "isRunning (fst (pollInbox mf cfg cyc (m, s))) = isRunning m
       \<and> \<not> isProcessing (fst (pollInbox mf cfg cyc (m, s)))
       \<and> \<not> shouldStop (fst (pollInbox mf cfg cyc (m, s)))
       \<and> consecutiveFailures (fst (pollInbox mf cfg cyc (m, s))) = 0"
proof -
  from assms(1) obtain emails where e: "checkInbox (cyc_now cyc) (cyc_session cyc) = Inr emails"
    by (cases "checkInbox (cyc_now cyc) (cyc_session cyc)") (auto simp: failing_def)
  obtain m3 s3 where p: "processEmails mf cfg (cyc_envs cyc) 0 emails
           (m\<lparr>isProcessing := True, consecutiveFailures := 0\<rparr>, s) = (m3, s3)"
    by (cases "processEmails mf cfg (cyc_envs cyc) 0 emails
           (m\<lparr>isProcessing := True, consecutiveFailures := 0\<rparr>, s)")
  with processEmails_monitor[of mf cfg "cyc_envs cyc" 0 emails
         "m\<lparr>isProcessing := True, consecutiveFailures := 0\<rparr>" s]
  have "m3 = m\<lparr>isProcessing := True, consecutiveFailures := 0\<rparr>" by simp
  with assms(2,3) e p show ?thesis by (simp add: pollInbox_def Let_def)
qed

lemma pollCycles_failures:
  assumes "\<forall>c \<in> set fails. failing c" and "\<not> isProcessing m" and "\<not> shouldStop m"
  shows "isRunning (fst (pollCycles mf cfg fails (m, s))) = isRunning m
       \<and> \<not> isProcessing (fst (pollCycles mf cfg fails (m, s)))
       \<and> \<not> shouldStop (fst (pollCycles mf cfg fails (m, s)))
       \<and> consecutiveFailures (fst (pollCycles mf cfg fails (m, s)))
           = consecutiveFailures m + length fails
       \<and> activity (snd (pollCycles mf cfg fails (m, s)))
           = activity s @ expected_failure_log (consecutiveFailures m) fails"
  using assms
proof (induction fails arbitrary: m s)
  case Nil
  then show ?case by simp
next
  case (Cons c cs)
  obtain m' s' where p: "pollInbox mf cfg c (m, s) = (m', s')"
    by (cases "pollInbox mf cfg c (m, s)")
  from Cons.prems have f: "failing c" by simp
  note step = pollInbox_failure[OF f Cons.prems(2,3), of mf cfg s, unfolded p fst_conv snd_conv]
  from Cons.prems(1) have "\<forall>c \<in> set cs. failing c" by simp
  from Cons.IH[OF this step(2,3), of s'] step p
  show ?case by simp
qed

text \<open>
  Claim C9. Let the monitor be idle and not stopping, let \<open>checkInbox\<close> fail in each of
  the cycles \<open>fails\<close> and succeed in the cycle \<open>ok\<close>. After the failing cycles the
  monitor is as running as before, idle and not stopping (the next tick polls again), the
  counter has grown by the number of failures, and the log has grown by exactly: for the
  \<open>k\<close>-th failure in a row, one \<open>error\<close> entry naming attempt \<open>k\<close>, followed by the
  maximum-failures entry when \<open>k\<close> is 5 or more. After the successful cycle that follows
  the counter is zero and the monitor still runs.
\<close>

theorem C9_retry_on_failure:
  assumes "\<forall>c \<in> set fails. failing c" and "\<not> failing ok"
    and "\<not> isProcessing m" and "\<not> shouldStop m"
  shows "isRunning (fst (pollCycles mf cfg fails (m, s))) = isRunning m
       \<and> \<not> isProcessing (fst (pollCycles mf cfg fails (m, s)))
       \<and> \<not> shouldStop (fst (pollCycles mf cfg fails (m, s)))
       \<and> consecutiveFailures (fst (pollCycles mf cfg fails (m, s)))
           = consecutiveFailures m + length fails
       \<and> activity (snd (pollCycles mf cfg fails (m, s)))
           = activity s @ expected_failure_log (consecutiveFailures m) fails
       \<and> isRunning (fst (pollCycles mf cfg (fails @ [ok]) (m, s))) = isRunning m
       \<and> \<not> isProcessing (fst (pollCycles mf cfg (fails @ [ok]) (m, s)))
       \<and> \<not> shouldStop (fst (pollCycles mf cfg (fails @ [ok]) (m, s)))
       \<and> consecutiveFailures (fst (pollCycles mf cfg (fails @ [ok]) (m, s))) = 0"
proof -
  have app: "pollCycles mf cfg (xs @ ys) ms = pollCycles mf cfg ys (pollCycles mf cfg xs ms)"
    for xs ys ms
    by (induction xs arbitrary: ms) simp_all
  note f = pollCycles_failures[OF assms(1,3,4), of mf cfg s]
  obtain m1 s1 where p: "pollCycles mf cfg fails (m, s) = (m1, s1)"
    by (cases "pollCycles mf cfg fails (m, s)")
  from f p have r: "\<not> isProcessing m1" "\<not> shouldStop m1" "isRunning m1 = isRunning m"
    by simp_all
  from pollInbox_success[OF assms(2) r(1,2), of mf cfg s1] r(3) p f
  show ?thesis by (simp add: app)
qed

text \<open>
  Claim C9, witness: five connection errors in a row, then an empty inbox. The sixth log
  line is the maximum-failures entry.
\<close>

theorem C9_retry_on_failure_witness:
  "failing fail_cycle \<and> \<not> failing ok_cycle
   \<and> isRunning mon0 \<and> \<not> isProcessing mon0 \<and> \<not> shouldStop mon0
   \<and> consecutiveFailures mon0 = 0
   \<and> isRunning (fst (pollCycles open_filter auto_config
         [fail_cycle, fail_cycle, fail_cycle, fail_cycle, fail_cycle] (mon0, sys0)))
   \<and> consecutiveFailures (fst (pollCycles open_filter auto_config
         [fail_cycle, fail_cycle, fail_cycle, fail_cycle, fail_cycle] (mon0, sys0))) = 5
   \<and> map log_details (activity (snd (pollCycles open_filter auto_config
         [fail_cycle, fail_cycle, fail_cycle, fail_cycle, fail_cycle] (mon0, sys0))))
       = [''Failed to check inbox (attempt 1/5): IMAP connection error: timeout'',
          ''Failed to check inbox (attempt 2/5): IMAP connection error: timeout'',
          ''Failed to check inbox (attempt 3/5): IMAP connection error: timeout'',
          ''Failed to check inbox (attempt 4/5): IMAP connection error: timeout'',
          ''Failed to check inbox (attempt 5/5): IMAP connection error: timeout'',
          ''Maximum consecutive failures reached (5). Connection issues detected.'']
   \<and> isRunning (fst (pollCycles open_filter auto_config
         ([fail_cycle, fail_cycle, fail_cycle, fail_cycle, fail_cycle] @ [ok_cycle]) (mon0, sys0)))
   \<and> consecutiveFailures (fst (pollCycles open_filter auto_config
         ([fail_cycle, fail_cycle, fail_cycle, fail_cycle, fail_cycle] @ [ok_cycle]) (mon0, sys0))) = 0"
proof -
  let ?fails = "[fail_cycle, fail_cycle, fail_cycle, fail_cycle, fail_cycle]"
  have f: "failing fail_cycle" by code_simp
  have o: "\<not> failing ok_cycle" by code_simp
  have m: "isRunning mon0" "\<not> isProcessing mon0" "\<not> shouldStop mon0"
    "consecutiveFailures mon0 = 0"
    by (simp_all add: mon0_def)
  have a: "\<forall>c \<in> set ?fails. failing c" using f by simp
  have l: "map log_details (expected_failure_log 0 ?fails)
       = [''Failed to check inbox (attempt 1/5): IMAP connection error: timeout'',
          ''Failed to check inbox (attempt 2/5): IMAP connection error: timeout'',
          ''Failed to check inbox (attempt 3/5): IMAP connection error: timeout'',
          ''Failed to check inbox (attempt 4/5): IMAP connection error: timeout'',
          ''Failed to check inbox (attempt 5/5): IMAP connection error: timeout'',
          ''Maximum consecutive failures reached (5). Connection issues detected.'']"
    by code_simp
  have s: "activity sys0 = []" by (simp add: activity_def sys0_def)
  from C9_retry_on_failure[OF a o m(2,3), of open_filter auto_config sys0] m l s
  have "isRunning (fst (pollCycles open_filter auto_config ?fails (mon0, sys0)))
     \<and> consecutiveFailures (fst (pollCycles open_filter auto_config ?fails (mon0, sys0))) = 5
     \<and> map log_details (activity (snd (pollCycles open_filter auto_config ?fails (mon0, sys0))))
         = [''Failed to check inbox (attempt 1/5): IMAP connection error: timeout'',
          ''Failed to check inbox (attempt 2/5): IMAP connection error: timeout'',
          ''Failed to check inbox (attempt 3/5): IMAP connection error: timeout'',
          ''Failed to check inbox (attempt 4/5): IMAP connection error: timeout'',
          ''Failed to check inbox (attempt 5/5): IMAP connection error: timeout'',
          ''Maximum consecutive failures reached (5). Connection issues detected.'']
     \<and> isRunning (fst (pollCycles open_filter auto_config (?fails @ [ok_cycle]) (mon0, sys0)))
     \<and> consecutiveFailures (fst (pollCycles open_filter auto_config (?fails @ [ok_cycle])
           (mon0, sys0))) = 0"
    by simp
  with f o m show ?thesis by blast
qed

section \<open>The configuration manager\<close>

lemma validation_failure_changes_nothing:
  "validateConfig updates = Inl e \<Longrightarrow> updateConfig db updates st = (Inl e, st)"
  by (simp add: updateConfig_def)

lemma negative_checkInterval_rejected:
  "n < 0 \<Longrightarrow>
     validate_autoReply [''checkInterval'' \<mapsto> JNum n] =
       Some (ValidationError ''Invalid checkInterval: must be a positive number'')"
  by (simp add: validate_autoReply_def get_prop_def)

text \<open>
  Claim C8, at the failing input. \<open>validateConfig\<close> tests \<open>checkInterval\<close> (like the
  ports) for truthiness before it tests \<open><= 0\<close>, and 0 is falsy: the update
  \<open>{autoReply: {checkInterval: 0}}\<close> is accepted, the configuration in memory changes
  from 10 to 0, and both listeners are notified.
\<close>

theorem C8_zero_interval_accepted:
  "fst (updateConfig db_ok zero_interval_update cm0) = Inr ()
   \<and> map_option (\<lambda>c. get_prop (conf_autoReply c) ''checkInterval'') (currentConfig cm0)
        = Some (JNum 10)
   \<and> map_option (\<lambda>c. get_prop (conf_autoReply c) ''checkInterval'')
        (currentConfig (snd (updateConfig db_ok zero_interval_update cm0))) = Some (JNum 0)
   \<and> outside cm0 = []
   \<and> outside (snd (updateConfig db_ok zero_interval_update cm0)) = [1, 2]"
  by code_simp

lemma notify_loop_fields:
  "outside (notify_loop c ls st) = foldl (\<lambda>w l. snd (l c w)) (outside st) ls
   \<and> currentConfig (notify_loop c ls st) = currentConfig st
   \<and> db_data (notify_loop c ls st) = db_data st
   \<and> listeners (notify_loop c ls st) = listeners st"
proof (induction ls arbitrary: st)
  case Nil
  show ?case by simp
next
  case (Cons l ls)
  show ?case
  proof (cases "l c (outside st)")
    case (Pair thrown w)
    then show ?thesis using Cons.IH by (cases thrown) simp_all
  qed
qed

lemma getConfig_keeps:
  "listeners (snd (getConfig db st)) = listeners st
   \<and> outside (snd (getConfig db st)) = outside st
   \<and> console (snd (getConfig db st)) = console st"
  by (simp add: getConfig_def split: option.splits)

text \<open>
  Claim C10. For an update that passes validation, with the current configuration
  \<open>cur\<close> at hand and a database write that succeeds, \<open>updateConfig\<close> returns normally
  whatever the listeners do, the new configuration is the merged one, and the outside
  world is the result of running every registered listener on the new configuration, one
  after the other in the order of the list -- a listener that throws does not stop the
  loop. \<open>subscribe\<close> puts a new listener at the end of that list.
\<close>

theorem C10_listeners_all_notified:
  assumes "validateConfig updates = Inr ()" and "fst (getConfig db st) = Inr cur"
    and "db_run_error db = None"
  shows "fst (updateConfig db updates st) = Inr ()
     \<and> currentConfig (snd (updateConfig db updates st)) = Some (mergeConfig cur updates)
     \<and> outside (snd (updateConfig db updates st))
         = foldl (\<lambda>w l. snd (l (mergeConfig cur updates) w)) (outside st) (listeners st)
     \<and> listeners (subscribe l (snd (updateConfig db updates st))) = listeners st @ [l]"
proof -
  obtain st1 where g: "getConfig db st = (Inr cur, st1)"
    using assms(2) by (cases "getConfig db st") simp
  then have k: "listeners st1 = listeners st" "outside st1 = outside st"
    using getConfig_keeps[of db st] by simp_all
  have u: "updateConfig db updates st =
      (Inr (), notifyListeners (mergeConfig cur updates)
                 (st1\<lparr>db_data := Some (mergeConfig cur updates),
                      currentConfig := Some (mergeConfig cur updates)\<rparr>))"
    using assms(1,3) g by (simp add: updateConfig_def Let_def)
  show ?thesis
    using k by (simp add: u notifyListeners_def notify_loop_fields subscribe_def)
qed

text \<open>
  Claim C10, witness: listener 1 throws, listener 2 is registered after it and still
  sees the update.
\<close>

theorem C10_listeners_all_notified_witness:
  "validateConfig template_update = Inr ()
   \<and> listeners cm0 = [listener1, listener2]
   \<and> fst (listener1 defaultConfig []) = Some ''listener 1 failed''
   \<and> fst (updateConfig db_ok template_update cm0) = Inr ()
   \<and> outside (snd (updateConfig db_ok template_update cm0)) = [1, 2]"
proof -
  have v: "validateConfig template_update = Inr ()" by code_simp
  have g: "fst (getConfig db_ok cm0) = Inr defaultConfig"
    by (simp add: getConfig_def cm0_def subscribe_def)
  have d: "db_run_error db_ok = None" by (simp add: db_ok_def)
  have l: "listeners cm0 = [listener1, listener2]" by (simp add: cm0_def subscribe_def)
  have o: "outside cm0 = []" by (simp add: cm0_def subscribe_def)
  have t: "fst (listener1 defaultConfig []) = Some ''listener 1 failed''"
    by (simp add: listener1_def)
  from C10_listeners_all_notified[OF v g d] l o
  have "fst (updateConfig db_ok template_update cm0) = Inr ()
     \<and> outside (snd (updateConfig db_ok template_update cm0)) = [1, 2]"
    by (simp add: listener1_def listener2_def)
  with v l t show ?thesis by blast
qed

end
